theory Spec2Isabelle
  imports Complex_Main "HOL-Library.Log_Nat"
begin

section \<open>Library functions used by \<open>OrderStatusManager\<close>\<close>

text \<open>
  The two source files \<^verbatim>\<open>app.py\<close> and \<^verbatim>\<open>app1.py\<close> hold the same class
  \<^verbatim>\<open>OrderStatusManager\<close> (they differ in docstrings and in the user interface only), so
  one embedding covers both. The class calls four functions of the Python standard library:
  \<^verbatim>\<open>datetime.strptime\<close> with the format \<^verbatim>\<open>%d/%m/%y\<close>, the subtraction of two dates,
  \<^verbatim>\<open>float\<close> on a string, and the format specification \<^verbatim>\<open>.2f\<close>; and it computes with
  binary64 floating-point numbers. These are modelled first.
\<close>

datatype error = KeyError | ValueError

subsection \<open>Calendar dates\<close>

record date =
  year :: int
  month :: int
  day :: int

definition is_leap :: "int \<Rightarrow> bool" where
  "is_leap y = (y mod 4 = 0 \<and> (y mod 100 \<noteq> 0 \<or> y mod 400 = 0))"

definition days_in_month :: "int \<Rightarrow> int \<Rightarrow> int" where
  "days_in_month y m =
     (if m = 2 then (if is_leap y then 29 else 28)
      else if m = 4 \<or> m = 6 \<or> m = 9 \<or> m = 11 then 30 else 31)"

definition days_before_year :: "int \<Rightarrow> int" where
  "days_before_year y = (let z = y - 1 in z * 365 + z div 4 - z div 100 + z div 400)"

definition days_before_month :: "int \<Rightarrow> int \<Rightarrow> int" where
  "days_before_month y m = sum_list (map (days_in_month y) [1 .. m - 1])"

text \<open>\<^verbatim>\<open>date.toordinal\<close>: the proleptic Gregorian ordinal, 1 for 1 January of year 1.\<close>

definition toordinal :: "date \<Rightarrow> int" where
  "toordinal d = days_before_year (year d) + days_before_month (year d) (month d) + day d"

subsection \<open>\<^verbatim>\<open>strptime(s, "%d/%m/%y")\<close>\<close>

definition is_digit :: "char \<Rightarrow> bool" where
  "is_digit c = (c \<in> set ''0123456789'')"

definition digit_val :: "char \<Rightarrow> nat" where
  "digit_val c = of_char c - 48"

definition digit_char :: "nat \<Rightarrow> char" where
  "digit_char n = char_of (48 + n)"

fun split_on :: "char \<Rightarrow> string \<Rightarrow> string list" where
  "split_on c [] = [[]]"
| "split_on c (x # xs) =
     (if x = c then [] # split_on c xs
      else (case split_on c xs of w # ws \<Rightarrow> (x # w) # ws | [] \<Rightarrow> [[x]]))"

text \<open>
  The directive \<^verbatim>\<open>%d\<close> accepts \<^verbatim>\<open>3[0-1]|[1-2]\d|0[1-9]|[1-9]| [1-9]\<close>, \<^verbatim>\<open>%m\<close> accepts
  \<^verbatim>\<open>1[0-2]|0[1-9]|[1-9]\<close> and \<^verbatim>\<open>%y\<close> accepts two digits. None of them matches a slash and
  the whole string has to be consumed, so the three fields are the pieces between the
  slashes.
\<close>

definition day_field :: "string \<Rightarrow> int option" where
  "day_field s =
     (case s of
        [a] \<Rightarrow> if is_digit a \<and> a \<noteq> CHR ''0'' then Some (int (digit_val a)) else None
      | [a, b] \<Rightarrow>
          if a = CHR ''3'' \<and> (b = CHR ''0'' \<or> b = CHR ''1'') then Some (30 + int (digit_val b))
          else if (a = CHR ''1'' \<or> a = CHR ''2'') \<and> is_digit b
            then Some (10 * int (digit_val a) + int (digit_val b))
          else if (a = CHR ''0'' \<or> a = CHR '' '') \<and> is_digit b \<and> b \<noteq> CHR ''0''
            then Some (int (digit_val b))
          else None
      | _ \<Rightarrow> None)"

definition month_field :: "string \<Rightarrow> int option" where
  "month_field s =
     (case s of
        [a] \<Rightarrow> if is_digit a \<and> a \<noteq> CHR ''0'' then Some (int (digit_val a)) else None
      | [a, b] \<Rightarrow>
          if a = CHR ''1'' \<and> (b = CHR ''0'' \<or> b = CHR ''1'' \<or> b = CHR ''2'')
            then Some (10 + int (digit_val b))
          else if a = CHR ''0'' \<and> is_digit b \<and> b \<noteq> CHR ''0'' then Some (int (digit_val b))
          else None
      | _ \<Rightarrow> None)"

definition year_field :: "string \<Rightarrow> int option" where
  "year_field s =
     (case s of
        [a, b] \<Rightarrow> if is_digit a \<and> is_digit b
                  then Some (10 * int (digit_val a) + int (digit_val b)) else None
      | _ \<Rightarrow> None)"

text \<open>
  A two-digit year up to 68 is in the 2000s, from 69 on in the 1900s; a day beyond the
  length of the month is a \<^verbatim>\<open>ValueError\<close>, like every string that does not match.
\<close>

definition strptime :: "string \<Rightarrow> error + date" where
  "strptime s =
     (case split_on CHR ''/'' s of
        [d, m, y] \<Rightarrow>
          (case (day_field d, month_field m, year_field y) of
             (Some dd, Some mm, Some yy) \<Rightarrow>
               (let yr = (if yy \<le> 68 then 2000 + yy else 1900 + yy)
                in if dd \<le> days_in_month yr mm
                   then Inr \<lparr>year = yr, month = mm, day = dd\<rparr>
                   else Inl ValueError)
           | _ \<Rightarrow> Inl ValueError)
      | _ \<Rightarrow> Inl ValueError)"

subsection \<open>Binary64 arithmetic\<close>

text \<open>
  A finite binary64 number is modelled by the rational it denotes. Every floating-point
  operation of the source is the exact operation followed by \<open>rd\<close>, rounding to the
  nearest number with a 53-bit significand, ties to the even significand. The exponent is
  not bounded: overflow to infinity, NaN, subnormal numbers and the sign of zero are not
  modelled. The prices of the store stay between 0 and 900, far inside the normal range.
\<close>

definition rhe :: "rat \<Rightarrow> int" where
  "rhe x =
     (let f = \<lfloor>x\<rfloor>; d = x - of_int f
      in if d < 1 / 2 then f else if 1 / 2 < d then f + 1
         else if even f then f else f + 1)"

definition pow2 :: "int \<Rightarrow> rat" where
  "pow2 n = (if 0 \<le> n then 2 ^ nat n else 1 / 2 ^ nat (- n))"

text \<open>For \<open>0 < x\<close>, \<open>expo x\<close> is the exponent \<open>e\<close> with \<open>2^e \<le> x < 2^(e+1)\<close>.\<close>

definition expo :: "rat \<Rightarrow> int" where
  "expo x =
     (if 1 \<le> x then bitlen \<lfloor>x\<rfloor> - 1
      else (let j = bitlen \<lfloor>1 / x\<rfloor> - 1 in if x * pow2 j = 1 then - j else - j - 1))"

definition rd_pos :: "rat \<Rightarrow> rat" where
  "rd_pos x = (let e = expo x in of_int (rhe (x * pow2 (52 - e))) * pow2 (e - 52))"

definition rd :: "rat \<Rightarrow> rat" where
  "rd x = (if x = 0 then 0 else if 0 < x then rd_pos x else - rd_pos (- x))"

subsection \<open>\<^verbatim>\<open>str.rstrip\<close>, \<^verbatim>\<open>float\<close> and the format \<^verbatim>\<open>.2f\<close>\<close>

definition rstrip :: "string \<Rightarrow> string \<Rightarrow> string" where
  "rstrip chars s = rev (dropWhile (\<lambda>c. c \<in> set chars) (rev s))"

definition nat_of_digits :: "string \<Rightarrow> nat" where
  "nat_of_digits ds = foldl (\<lambda>a c. 10 * a + digit_val c) 0 ds"

text \<open>
  The number a plain decimal numeral denotes: an optional sign, digits, and optionally a
  point and more digits, with a digit on at least one side of the point. \<^verbatim>\<open>float\<close> accepts
  more (surrounding blanks, an exponent, \<^verbatim>\<open>inf\<close>, \<^verbatim>\<open>nan\<close>, underscores); the model raises
  \<^verbatim>\<open>ValueError\<close> on those, and the theorems below only speak of stores whose prices are plain
  numerals, as every price the class ever writes is.
\<close>

definition unsigned_decimal :: "string \<Rightarrow> rat option" where
  "unsigned_decimal s =
     (let ip = takeWhile is_digit s; rest = dropWhile is_digit s
      in case rest of
           [] \<Rightarrow> if ip = [] then None else Some (of_nat (nat_of_digits ip))
         | c # fp \<Rightarrow>
             if c = CHR ''.'' \<and> list_all is_digit fp \<and> (ip \<noteq> [] \<or> fp \<noteq> [])
             then Some (of_nat (nat_of_digits (ip @ fp)) / 10 ^ length fp)
             else None)"

definition decimal :: "string \<Rightarrow> rat option" where
  "decimal s =
     (case s of
        [] \<Rightarrow> None
      | c # t \<Rightarrow>
          if c = CHR ''-'' then map_option uminus (unsigned_decimal t)
          else if c = CHR ''+'' then unsigned_decimal t
          else unsigned_decimal s)"

text \<open>\<^verbatim>\<open>float(s)\<close> is correctly rounded: the binary64 number nearest to the numeral.\<close>

definition float :: "string \<Rightarrow> error + rat" where
  "float s = (case decimal s of None \<Rightarrow> Inl ValueError | Some v \<Rightarrow> Inr (rd v))"

fun digits_of :: "nat \<Rightarrow> string" where
  "digits_of n =
     (if n < 10 then [digit_char n] else digits_of (n div 10) @ [digit_char (n mod 10)])"

declare digits_of.simps [simp del]

text \<open>
  \<^verbatim>\<open>f"{x:.2f}"\<close> prints the exact value of \<open>x\<close> rounded to hundredths, ties to even, with
  the sign of \<open>x\<close>.
\<close>

definition format_2f :: "rat \<Rightarrow> string" where
  "format_2f x =
     (let c = nat \<bar>rhe (100 * x)\<bar>
      in (if x < 0 then ''-'' else '''') @ digits_of (c div 100) @ ''.''
         @ [digit_char (c mod 100 div 10), digit_char (c mod 10)])"

section \<open>The order record store\<close>

text \<open>
  The four dictionaries of \<^verbatim>\<open>OrderStatusManager\<close>, as maps from the order id. Statuses,
  prices and ship dates are strings, as in the source.
\<close>

record OrderStatusManager =
  order_statuses :: "string \<rightharpoonup> string"
  order_price :: "string \<rightharpoonup> string"
  order_shipped :: "string \<rightharpoonup> string"
  original_prices :: "string \<rightharpoonup> string"

text \<open>\<^verbatim>\<open>__init__\<close>: the seeded catalogue; \<open>original_prices\<close> is a copy of the prices.\<close>

definition init :: OrderStatusManager where
  "init =
     \<lparr>order_statuses =
        [''12345'' \<mapsto> ''Shipped'', ''67890'' \<mapsto> ''Processing'', ''11223'' \<mapsto> ''Delivered''],
      order_price = [''12345'' \<mapsto> ''500$'', ''67890'' \<mapsto> ''79$'', ''11223'' \<mapsto> ''900$''],
      order_shipped =
        [''12345'' \<mapsto> ''22/2/25'', ''67890'' \<mapsto> ''24/2/25'', ''11223'' \<mapsto> ''2/2/25''],
      original_prices = [''12345'' \<mapsto> ''500$'', ''67890'' \<mapsto> ''79$'', ''11223'' \<mapsto> ''900$'']\<rparr>"

text \<open>
  A method returns what the call produced, a narration string or the exception it raised,
  together with the store as the call left it.
\<close>

type_synonym outcome = "(error + string) \<times> OrderStatusManager"

definition get_total_price :: "OrderStatusManager \<Rightarrow> string \<Rightarrow> outcome" where
  "get_total_price self order_id =
     (Inr (case order_price self order_id of Some p \<Rightarrow> p | None \<Rightarrow> ''total sum price''), self)"

definition get_order_status :: "OrderStatusManager \<Rightarrow> string \<Rightarrow> outcome" where
  "get_order_status self order_id =
     (Inr (case order_statuses self order_id of Some v \<Rightarrow> v | None \<Rightarrow> ''Order ID not found.''),
      self)"

text \<open>
  Lines 44 to 50 of \<^verbatim>\<open>initiate_return\<close>: whether the order was shipped more than 10 days
  before \<open>today\<close>, the value of \<^verbatim>\<open>datetime.date.today()\<close> at the call. A missing or
  empty ship date skips the check.
\<close>

definition days_since_shipped :: "date \<Rightarrow> date \<Rightarrow> int" where
  "days_since_shipped today shipping_date = toordinal today - toordinal shipping_date"

definition window_closed :: "date \<Rightarrow> OrderStatusManager \<Rightarrow> string \<Rightarrow> error + bool" where
  "window_closed today self order_id =
     (case order_shipped self order_id of
        None \<Rightarrow> Inr False
      | Some shipping_date_str \<Rightarrow>
          if shipping_date_str = [] then Inr False
          else (case strptime shipping_date_str of
                  Inl e \<Rightarrow> Inl e
                | Inr shipping_date \<Rightarrow> Inr (10 < days_since_shipped today shipping_date)))"

definition initiate_return ::
  "date \<Rightarrow> OrderStatusManager \<Rightarrow> string \<Rightarrow> string \<Rightarrow> outcome" where
  "initiate_return today self order_id reason =
     (if order_id \<in> set [''12345'', ''67890'', ''11223''] then
        (case window_closed today self order_id of
           Inl e \<Rightarrow> (Inl e, self)
         | Inr True \<Rightarrow>
             (Inr (''Return cannot be initiated for order '' @ order_id
                   @ '' as it has been more than 10 days since shipping.''), self)
         | Inr False \<Rightarrow>
             (let self1 = self\<lparr>order_statuses :=
                            (order_statuses self)(order_id \<mapsto> ''Return Initiated'')\<rparr>
              in case order_price self1 order_id of
                   None \<Rightarrow> (Inl KeyError, self1)
                 | Some p \<Rightarrow>
                     (case float (rstrip ''$'' p) of
                        Inl e \<Rightarrow> (Inl e, self1)
                      | Inr original_price \<Rightarrow>
                          (let penalty = rd (original_price * rd (2 / 100));
                               new_price = rd (original_price - penalty);
                               new_str = format_2f new_price @ ''$'';
                               self2 = self1\<lparr>order_price :=
                                         (order_price self1)(order_id \<mapsto> new_str)\<rparr>
                           in (Inr (''Return initiated for order '' @ order_id @ '' due to: ''
                                    @ reason @ ''. Price after penalty is '' @ new_str @ ''.''),
                               self2)))))
      else (Inr ''Order ID not found. Cannot initiate return.'', self))"

definition cancel_return :: "OrderStatusManager \<Rightarrow> string \<Rightarrow> string \<Rightarrow> outcome" where
  "cancel_return self order_id reason =
     (case order_statuses self order_id of
        None \<Rightarrow> (Inr ''Order ID not found. Cannot cancel return.'', self)
      | Some status \<Rightarrow>
          if status = ''Return Initiated'' then
            (let self1 = self\<lparr>order_statuses := (order_statuses self)(order_id \<mapsto> status)\<rparr>;
                 p = (case order_price self1 order_id of Some v \<Rightarrow> v | None \<Rightarrow> ''order_price'');
                 self2 = self1\<lparr>order_price := (order_price self1)(order_id \<mapsto> p)\<rparr>
             in (Inr (''Return cancellation initiated for order '' @ order_id @ '' due to: ''
                      @ reason @ ''. Price reset to '' @ p @ ''.''), self2))
          else (Inr (''Order '' @ order_id
                     @ '' is not in 'Return Initiated' status. Cannot cancel return.''), self))"

text \<open>
  The number a stored price denotes, and the rendering of \<open>c\<close> hundredths that
  \<open>format_2f\<close> produces for a non-negative number. Both are used to state the properties of
  the prices; the methods do not call them.
\<close>

definition amount :: "string \<Rightarrow> rat option" where
  "amount p = decimal (rstrip ''$'' p)"

definition cents_str :: "nat \<Rightarrow> string" where
  "cents_str c =
     digits_of (c div 100) @ ''.'' @ [digit_char (c mod 100 div 10), digit_char (c mod 10)]"

section \<open>Sequences of calls\<close>

text \<open>
  The four methods are the tools the agent may call, in any order and with any arguments.
  A call carries the date of the day it is made on; the state after an exception is the
  store as the method left it, as in Python.
\<close>

datatype call =
  Get_total_price string
| Get_order_status string
| Initiate_return string string
| Cancel_return string string

fun exec :: "date \<Rightarrow> OrderStatusManager \<Rightarrow> call \<Rightarrow> outcome" where
  "exec today self (Get_total_price order_id) = get_total_price self order_id"
| "exec today self (Get_order_status order_id) = get_order_status self order_id"
| "exec today self (Initiate_return order_id reason) =
     initiate_return today self order_id reason"
| "exec today self (Cancel_return order_id reason) = cancel_return self order_id reason"

fun run :: "OrderStatusManager \<Rightarrow> (date \<times> call) list \<Rightarrow> OrderStatusManager" where
  "run self [] = self"
| "run self ((today, c) # cs) = run (snd (exec today self c)) cs"

inductive reachable :: "OrderStatusManager \<Rightarrow> bool" where
  reachable_init: "reachable init"
| reachable_step: "reachable s \<Longrightarrow> reachable (snd (exec today s c))"

text \<open>
  The invariant of the reachable stores: the ship dates and the original prices are those
  of the catalogue, the three orders are the only keys, every status is a non-empty string,
  and every price is a plain numeral of a whole number of hundredths, at most the original
  price.
\<close>

definition wf_price :: "OrderStatusManager \<Rightarrow> string \<Rightarrow> bool" where
  "wf_price s oid \<longleftrightarrow>
     (\<exists>p q. \<exists>c d :: nat.
        order_price s oid = Some p \<and> original_prices s oid = Some q
        \<and> amount p = Some (of_nat c / 100) \<and> amount q = Some (of_nat d / 100)
        \<and> c \<le> d \<and> d \<le> 90000)"

definition wf :: "OrderStatusManager \<Rightarrow> bool" where
  "wf s \<longleftrightarrow>
     order_shipped s = order_shipped init \<and> original_prices s = original_prices init
     \<and> (\<forall>oid. oid \<notin> set [''12345'', ''67890'', ''11223''] \<longrightarrow>
            order_statuses s oid = None \<and> order_price s oid = None)
     \<and> (\<forall>oid \<in> set [''12345'', ''67890'', ''11223''].
            (\<exists>st. order_statuses s oid = Some st \<and> st \<noteq> []) \<and> wf_price s oid)"

text \<open>
  The price in hundredths that \<^verbatim>\<open>initiate_return\<close> writes over a price of \<open>c\<close> hundredths:
  lines 56 to 59 of the method, from \<^verbatim>\<open>float\<close> to the format \<^verbatim>\<open>.2f\<close>.
\<close>

definition penalised_cents :: "nat \<Rightarrow> nat" where
  "penalised_cents c =
     nat (rhe (100 * rd (rd (of_nat c / 100) - rd (rd (of_nat c / 100) * rd (2 / 100)))))"

text \<open>
  The store after returns of order 67890 have brought its price to \<open>c\<close> hundredths: the
  seeded store with the status and the price of that order overwritten.
\<close>

definition after_returns :: "nat \<Rightarrow> OrderStatusManager" where
  "after_returns c =
     init\<lparr>order_statuses := (order_statuses init)(''67890'' \<mapsto> ''Return Initiated''),
          order_price := (order_price init)(''67890'' \<mapsto> cents_str c @ ''$'')\<rparr>"

text \<open>
  \<open>returns_chain n c\<close> follows up to \<open>n\<close> further returns from a price of \<open>c\<close> hundredths
  by whole-number arithmetic, as long as 0.98 times the price is not exactly halfway
  between two hundredths; at a halfway price it stops.
\<close>

fun returns_chain :: "nat \<Rightarrow> nat \<Rightarrow> nat" where
  "returns_chain 0 c = c"
| "returns_chain (Suc n) c =
     (if 98 * c mod 100 = 50 then c else returns_chain n ((49 * c + 25) div 50))"

section \<open>Rounding to binary64\<close>

lemma pow2_powi: "pow2 n = 2 powi n"
  by (simp add: pow2_def power_int_def inverse_eq_divide power_one_over)

lemma pow2_pos: "0 < pow2 n"
  by (simp add: pow2_powi)

lemma pow2_add: "pow2 (a + b) = pow2 a * pow2 b"
  by (simp add: pow2_powi power_int_add)

lemma pow2_0: "pow2 0 = 1"
  by (simp add: pow2_def)

lemma pow2_inv: "pow2 (- n) * pow2 n = 1"
  using pow2_add [of "- n" n] by (simp add: pow2_0)

lemma pow2_neg: "pow2 (- n) = 1 / pow2 n"
  using pow2_inv [of n] pow2_pos [of n] by (simp add: field_simps)

lemma rhe_err: "\<bar>of_int (rhe x) - x\<bar> \<le> 1 / 2"
proof -
  have "of_int \<lfloor>x\<rfloor> \<le> x" "x < of_int \<lfloor>x\<rfloor> + 1" by linarith+
  then show ?thesis
    by (auto simp: rhe_def Let_def)
qed

lemma rhe_nonneg: "0 \<le> x \<Longrightarrow> 0 \<le> rhe x"
  by (auto simp: rhe_def Let_def)

lemma expo_bounds:
  assumes "0 < x"
  shows "pow2 (expo x) \<le> x \<and> x < pow2 (expo x + 1)"
proof (cases "1 \<le> x")
  case True
  define n where "n = \<lfloor>x\<rfloor>"
  have n: "0 < n" "of_int n \<le> x" "x < of_int n + 1"
    using True by (auto simp: n_def) linarith+
  have b: "2 ^ nat (bitlen n - 1) \<le> n" "n < 2 ^ nat (bitlen n)"
    using bitlen_bounds [OF n(1)] by auto
  have ge: "1 \<le> bitlen n" using n(1) by (simp add: bitlen_alt_def)
  have e: "expo x = bitlen n - 1" using True by (simp add: expo_def n_def)
  have "pow2 (bitlen n - 1) = of_int (2 ^ nat (bitlen n - 1))"
    using ge by (simp add: pow2_def)
  also have "\<dots> \<le> of_int n" using b(1) by (simp only: of_int_le_iff)
  finally have lo: "pow2 (expo x) \<le> x" using n(2) e by simp
  have "n + 1 \<le> 2 ^ nat (bitlen n)" using b(2) by simp
  then have "(of_int (n + 1) :: rat) \<le> of_int (2 ^ nat (bitlen n))" by (simp only: of_int_le_iff)
  then have "x < pow2 (bitlen n)" using n(3) ge by (simp add: pow2_def)
  then show ?thesis using lo e by simp
next
  case False
  define y where "y = 1 / x"
  define k where "k = \<lfloor>y\<rfloor>"
  define j where "j = bitlen k - 1"
  have y: "1 < y" using False assms by (simp add: y_def)
  have k: "0 < k" "of_int k \<le> y" "y < of_int k + 1"
    using y by (auto simp: k_def) linarith+
  have b: "2 ^ nat (bitlen k - 1) \<le> k" "k < 2 ^ nat (bitlen k)"
    using bitlen_bounds [OF k(1)] by auto
  have ge: "0 \<le> j" using k(1) by (simp add: bitlen_alt_def j_def)
  have "pow2 j = of_int (2 ^ nat j)" using ge by (simp add: pow2_def)
  also have "\<dots> \<le> of_int k" using b(1) unfolding j_def by (simp only: of_int_le_iff)
  finally have lo: "pow2 j \<le> y" using k(2) by simp
  have "k + 1 \<le> 2 ^ nat (j + 1)" using b(2) by (simp add: j_def)
  then have "(of_int (k + 1) :: rat) \<le> of_int (2 ^ nat (j + 1))" by (simp only: of_int_le_iff)
  then have hi: "y < pow2 (j + 1)" using k(3) ge by (simp add: pow2_def)
  have xy: "x = 1 / y" by (simp add: y_def)
  have p1: "pow2 (- j) = 1 / pow2 j" using pow2_inv [of j] pow2_pos [of j]
    by (simp add: field_simps)
  have "- (j + 1) = - j - 1" by simp
  then have p2: "pow2 (- j - 1) = 1 / pow2 (j + 1)" using pow2_neg [of "j + 1"] by simp
  have up: "x \<le> pow2 (- j)" unfolding p1 xy using lo pow2_pos [of j] y
    by (simp add: field_simps)
  have dn: "pow2 (- j - 1) < x" unfolding p2 xy using hi pow2_pos [of "j + 1"] y
    by (simp add: field_simps)
  have e: "expo x = (if x * pow2 j = 1 then - j else - j - 1)"
    using False by (simp add: expo_def Let_def j_def k_def y_def)
  show ?thesis
  proof (cases "x * pow2 j = 1")
    case True
    then have "x = pow2 (- j)" unfolding p1 using pow2_pos [of j] by (simp add: field_simps)
    moreover have "pow2 (- j) < pow2 (- j + 1)"
      using pow2_add [of "- j" 1] pow2_pos [of "- j"] by (simp add: pow2_def)
    ultimately show ?thesis using e True by simp
  next
    case F: False
    then have "x \<noteq> pow2 (- j)" unfolding p1 using pow2_pos [of j] by (simp add: field_simps)
    then have "x < pow2 (- j)" using up by simp
    then show ?thesis using e F dn by simp
  qed
qed

lemma rd_pos_err:
  assumes "0 < x"
  shows "\<bar>rd_pos x - x\<bar> \<le> x * pow2 (- 53)"
proof -
  define e where "e = expo x"
  define s where "s = pow2 (52 - e)"
  have s: "0 < s" by (simp add: s_def pow2_pos)
  have inv: "pow2 (e - 52) = 1 / s"
    using pow2_inv [of "52 - e"] s by (simp add: s_def field_simps)
  have r: "rd_pos x = of_int (rhe (x * s)) / s"
    by (simp add: rd_pos_def Let_def e_def [symmetric] s_def [symmetric] inv)
  have "\<bar>of_int (rhe (x * s)) - x * s\<bar> \<le> 1 / 2" by (rule rhe_err)
  then have "\<bar>of_int (rhe (x * s)) - x * s\<bar> / s \<le> (1 / 2) / s"
    using s by (intro divide_right_mono) simp_all
  moreover have "\<bar>of_int (rhe (x * s)) - x * s\<bar> / s = \<bar>rd_pos x - x\<bar>"
    using s unfolding r by (simp add: abs_if field_simps)
  ultimately have 1: "\<bar>rd_pos x - x\<bar> \<le> 1 / (2 * s)" by simp
  have "1 / (2 * s) = pow2 (e - 53)"
  proof -
    have "pow2 (e - 53) = pow2 (e - 52) * pow2 (- 1)" using pow2_add [of "e - 52" "- 1"] by simp
    moreover have "pow2 (- 1) = 1 / 2" by (simp add: pow2_def)
    ultimately show ?thesis by (simp add: inv)
  qed
  also have "\<dots> = pow2 e * pow2 (- 53)" using pow2_add [of e "- 53"] by simp
  also have "\<dots> \<le> x * pow2 (- 53)"
    using expo_bounds [OF assms] pow2_pos [of "- 53"] by (simp add: e_def)
  finally show ?thesis using 1 by simp
qed

lemma rd_err: "\<bar>rd x - x\<bar> \<le> \<bar>x\<bar> * pow2 (- 53)"
proof -
  consider "x = 0" | "0 < x" | "x < 0" by linarith
  then show ?thesis
  proof cases
    case 1 then show ?thesis by (simp add: rd_def)
  next
    case 2 then show ?thesis using rd_pos_err [of x] by (simp add: rd_def)
  next
    case 3 then show ?thesis using rd_pos_err [of "- x"] by (simp add: rd_def)
  qed
qed

lemma rd_pos_nonneg: "0 < x \<Longrightarrow> 0 \<le> rd_pos x"
  by (simp add: rd_pos_def Let_def pow2_pos rhe_nonneg less_imp_le)

lemma rd_nonneg: "0 \<le> x \<Longrightarrow> 0 \<le> rd x"
  by (simp add: rd_def rd_pos_nonneg)

lemma rhe_nearest:
  assumes "\<bar>of_int n - x\<bar> < 1 / 2"
  shows "rhe x = n"
proof (cases "of_int n \<le> x")
  case True
  then have "\<lfloor>x\<rfloor> = n" using assms by (intro floor_unique) (auto simp: abs_less_iff)
  then show ?thesis using assms True by (simp add: rhe_def Let_def abs_less_iff)
next
  case False
  then have "\<lfloor>x\<rfloor> = n - 1" using assms by (intro floor_unique) (auto simp: abs_less_iff)
  then show ?thesis using assms False by (simp add: rhe_def Let_def abs_less_iff)
qed

lemma pow2_mono: "a \<le> b \<Longrightarrow> pow2 a \<le> pow2 b"
  by (simp add: pow2_powi power_int_increasing)

lemma expo_unique:
  assumes "pow2 e \<le> x" and "x < pow2 (e + 1)"
  shows "expo x = e"
proof -
  have x: "0 < x" using assms(1) pow2_pos [of e] by linarith
  have b: "pow2 (expo x) \<le> x" "x < pow2 (expo x + 1)" using expo_bounds [OF x] by simp_all
  have "\<not> expo x < e"
  proof
    assume "expo x < e"
    then have "pow2 (expo x + 1) \<le> pow2 e" by (intro pow2_mono) simp
    then show False using b(2) assms(1) by linarith
  qed
  moreover have "\<not> e < expo x"
  proof
    assume "e < expo x"
    then have "pow2 (e + 1) \<le> pow2 (expo x)" by (intro pow2_mono) simp
    then show False using b(1) assms(2) by linarith
  qed
  ultimately show ?thesis by simp
qed

lemma rd_eval:
  assumes "pow2 e \<le> x" and "x < pow2 (e + 1)"
    and "\<bar>of_int m - x * pow2 (52 - e)\<bar> < 1 / 2"
    and "y = of_int m * pow2 (e - 52)"
  shows "rd x = y"
proof -
  have x: "0 < x" using assms(1) pow2_pos [of e] by linarith
  have "expo x = e" using assms(1,2) by (rule expo_unique)
  moreover have "rhe (x * pow2 (52 - e)) = m" using assms(3) by (rule rhe_nearest)
  ultimately show ?thesis using x assms(4) by (simp add: rd_def rd_pos_def Let_def)
qed

subsection \<open>The penalty computed in binary64\<close>

text \<open>
  The three floating-point operations of \<^verbatim>\<open>initiate_return\<close> on a price of \<open>v\<close> end within
  \<open>4 * 2^-53 * v\<close> of \<open>0.98 * v\<close>. For a price of \<open>c\<close> hundredths the result, rounded to
  hundredths, is therefore a nearest whole number to \<open>0.98 * c\<close>.
\<close>

lemma abs_prod_err:
  fixes a b a' b' :: rat
  assumes "\<bar>a - a'\<bar> \<le> da" "\<bar>b - b'\<bar> \<le> db" "\<bar>a\<bar> \<le> A" "\<bar>b'\<bar> \<le> B"
  shows "\<bar>a * b - a' * b'\<bar> \<le> A * db + da * B"
proof -
  have "a * b - a' * b' = a * (b - b') + (a - a') * b'" by (simp add: algebra_simps)
  then have "\<bar>a * b - a' * b'\<bar> \<le> \<bar>a\<bar> * \<bar>b - b'\<bar> + \<bar>a - a'\<bar> * \<bar>b'\<bar>"
    by (metis abs_mult abs_triangle_ineq)
  moreover have "\<bar>a\<bar> * \<bar>b - b'\<bar> \<le> A * db"
    using assms by (intro mult_mono) auto
  moreover have "\<bar>a - a'\<bar> * \<bar>b'\<bar> \<le> da * B"
    using assms by (intro mult_mono) auto
  ultimately show ?thesis by linarith
qed

lemma penalty_err:
  assumes v: "0 \<le> v"
  shows "\<bar>rd (rd v - rd (rd v * rd (2 / 100))) - 49 / 50 * v\<bar> \<le> 4 * pow2 (- 53) * v"
    and "0 \<le> rd (rd v - rd (rd v * rd (2 / 100)))"
proof -
  define u where "u = pow2 (- 53)"
  define k where "k = rd (2 / 100)"
  define p where "p = rd v"
  define t where "t = rd (p * k)"
  define r where "r = rd (p - t)"
  have u: "0 < u" "u \<le> 1 / 1000" by (simp_all add: u_def pow2_def)
  have uv: "0 \<le> u * v" using u v by simp
  have k: "\<bar>k - 1 / 50\<bar> \<le> u / 50" using rd_err [of "2 / 100"] by (simp add: k_def u_def)
  have p: "\<bar>p - v\<bar> \<le> u * v" using rd_err [of v] v by (simp add: p_def u_def mult.commute)
  have p0: "0 \<le> p" using v by (simp add: p_def rd_nonneg)
  have p2: "\<bar>p\<bar> \<le> 2 * v"
  proof -
    have "u * v \<le> 1 * v" using u v by (intro mult_right_mono) auto
    then show ?thesis using p p0 by linarith
  qed
  have pk: "\<bar>p * k - v * (1 / 50)\<bar> \<le> (2 * v) * (u / 50) + (u * v) * (1 / 50)"
    by (rule abs_prod_err [OF p k p2]) simp
  have pk_le: "\<bar>p * k\<bar> \<le> v / 25"
  proof -
    have "(2 * v) * (u / 50) + (u * v) * (1 / 50) = 3 / 50 * (u * v)" by simp
    moreover have "u * v \<le> (1 / 1000) * v" using u v by (intro mult_right_mono) auto
    ultimately show ?thesis using pk v by linarith
  qed
  have t: "\<bar>t - p * k\<bar> \<le> u * (v / 25)"
  proof -
    have "\<bar>t - p * k\<bar> \<le> \<bar>p * k\<bar> * u" using rd_err [of "p * k"] by (simp add: t_def u_def)
    also have "\<dots> \<le> (v / 25) * u" using pk_le u by (intro mult_right_mono) auto
    finally show ?thesis by (simp add: mult.commute)
  qed
  have d: "\<bar>(p - t) - 49 / 50 * v\<bar> \<le> 57 / 50 * (u * v)"
  proof -
    define w where "w = u * v"
    define q where "q = p * k"
    have "\<bar>p - v\<bar> \<le> w" using p by (simp add: w_def)
    moreover have "\<bar>t - q\<bar> \<le> w / 25" using t by (simp add: w_def q_def)
    moreover have "\<bar>q - v / 50\<bar> \<le> 3 / 50 * w" using pk by (simp add: w_def q_def)
    ultimately have "\<bar>(p - t) - 49 / 50 * v\<bar> \<le> 57 / 50 * w"
      unfolding abs_le_iff by linarith
    then show ?thesis by (simp add: w_def)
  qed
  have small: "u * v \<le> v / 1000"
    using u v mult_right_mono [of u "1 / 1000" v] by simp
  have d0: "0 \<le> p - t" using d small v by linarith
  have d2: "\<bar>p - t\<bar> \<le> 2 * v" using d small v by linarith
  have r: "\<bar>r - (p - t)\<bar> \<le> u * (2 * v)"
  proof -
    have "\<bar>r - (p - t)\<bar> \<le> \<bar>p - t\<bar> * u" using rd_err [of "p - t"] by (simp add: r_def u_def)
    also have "\<dots> \<le> (2 * v) * u" using d2 u by (intro mult_right_mono) auto
    finally show ?thesis by (simp add: mult.commute)
  qed
  have "\<bar>r - 49 / 50 * v\<bar> \<le> 4 * u * v"
  proof -
    define w where "w = u * v"
    have "\<bar>r - (p - t)\<bar> \<le> 2 * w" using r by (simp add: w_def)
    moreover have "\<bar>(p - t) - 49 / 50 * v\<bar> \<le> 57 / 50 * w" using d by (simp add: w_def)
    moreover have "0 \<le> w" using uv by (simp add: w_def)
    ultimately have "\<bar>r - 49 / 50 * v\<bar> \<le> 4 * w" unfolding abs_le_iff by linarith
    then show ?thesis by (simp add: w_def)
  qed
  then show "\<bar>rd (rd v - rd (rd v * rd (2 / 100))) - 49 / 50 * v\<bar> \<le> 4 * pow2 (- 53) * v"
    by (simp add: r_def t_def p_def k_def u_def)
  show "0 \<le> rd (rd v - rd (rd v * rd (2 / 100)))"
    using rd_nonneg [OF d0] by (simp add: t_def p_def k_def)
qed

lemma cents_step:
  fixes c :: nat
  assumes "c \<le> 1000000000"
  defines "c' \<equiv> rhe (100 * rd (rd (of_nat c / 100) - rd (rd (of_nat c / 100) * rd (2 / 100))))"
  shows "\<bar>50 * c' - 49 * int c\<bar> \<le> 25" and "0 \<le> c'" and "c' \<le> int c"
proof -
  define v :: rat where "v = of_nat c / 100"
  define r where "r = rd (rd v - rd (rd v * rd (2 / 100)))"
  have v: "0 \<le> v" "v \<le> 10000000" using assms(1) by (simp_all add: v_def)
  have c': "c' = rhe (100 * r)" by (simp add: c'_def r_def v_def)
  have r: "\<bar>r - 49 / 50 * v\<bar> \<le> 4 * pow2 (- 53) * v" "0 \<le> r"
    using penalty_err [OF v(1)] by (simp_all add: r_def)
  have "4 * pow2 (- 53) * v \<le> 4 * pow2 (- 53) * 10000000"
    using v pow2_pos [of "- 53"] by (intro mult_left_mono) auto
  also have "\<dots> \<le> 1 / 100000" by (simp add: pow2_def)
  finally have r2: "\<bar>r - 49 / 50 * v\<bar> \<le> 1 / 100000" using r(1) by linarith
  have h: "\<bar>of_int c' - 100 * r\<bar> \<le> 1 / 2" unfolding c' by (rule rhe_err)
  have "\<bar>50 * (of_int c' :: rat) - 49 * of_nat c\<bar> < 26"
    using h r2 unfolding v_def abs_le_iff abs_less_iff by linarith
  then have "\<bar>(of_int (50 * c' - 49 * int c) :: rat)\<bar> < of_int 26" by simp
  then have "\<bar>50 * c' - 49 * int c\<bar> < 26"
    by (simp only: of_int_abs [symmetric] of_int_less_iff)
  then show 1: "\<bar>50 * c' - 49 * int c\<bar> \<le> 25" by simp
  show "0 \<le> c'" unfolding c' using r(2) by (intro rhe_nonneg) simp
  show "c' \<le> int c" using 1 by linarith
qed

section \<open>Printing and reading prices\<close>

lemma lt10_cases: "(n::nat) < 10 \<Longrightarrow> n \<in> {0, 1, 2, 3, 4, 5, 6, 7, 8, 9}"
  by auto

lemma digit_char_eval:
  "digit_char 0 = CHR ''0''" "digit_char (Suc 0) = CHR ''1''" "digit_char 2 = CHR ''2''"
  "digit_char 3 = CHR ''3''" "digit_char 4 = CHR ''4''" "digit_char 5 = CHR ''5''"
  "digit_char 6 = CHR ''6''" "digit_char 7 = CHR ''7''" "digit_char 8 = CHR ''8''"
  "digit_char 9 = CHR ''9''"
  by code_simp+

lemma is_digit_digit_char: "n < 10 \<Longrightarrow> is_digit (digit_char n)"
  by (drule lt10_cases) (auto simp: is_digit_def digit_char_eval)

lemma digit_val_digit_char: "n < 10 \<Longrightarrow> digit_val (digit_char n) = n"
  by (simp add: digit_val_def digit_char_def)

lemma digit_char_not_special:
  "n < 10 \<Longrightarrow> digit_char n \<noteq> CHR ''$'' \<and> digit_char n \<noteq> CHR ''-'' \<and> digit_char n \<noteq> CHR ''+''"
  by (drule lt10_cases) (auto simp: digit_char_eval)

lemma not_digit_point: "\<not> is_digit CHR ''.''"
  by (simp add: is_digit_def)

lemma digits_of_all: "list_all is_digit (digits_of n)"
proof (induction n rule: digits_of.induct)
  case (1 n)
  show ?case
  proof (cases "n < 10")
    case True
    then show ?thesis by (subst digits_of.simps) (simp add: is_digit_digit_char)
  next
    case False
    then show ?thesis using 1 by (subst digits_of.simps) (simp add: is_digit_digit_char)
  qed
qed

lemma digits_of_ne: "digits_of n \<noteq> []"
  by (subst digits_of.simps) simp

lemma nat_of_digits_snoc: "nat_of_digits (xs @ [c]) = 10 * nat_of_digits xs + digit_val c"
  by (simp add: nat_of_digits_def)

lemma nat_of_digits_digits_of: "nat_of_digits (digits_of n) = n"
proof (induction n rule: digits_of.induct)
  case (1 n)
  show ?case
  proof (cases "n < 10")
    case True
    then show ?thesis
      by (subst digits_of.simps) (simp add: nat_of_digits_def digit_val_digit_char)
  next
    case False
    then show ?thesis using 1
      by (subst digits_of.simps) (simp add: nat_of_digits_snoc digit_val_digit_char)
  qed
qed

lemma digits_of_hd: "\<exists>a t. digits_of n = a # t \<and> is_digit a"
  using digits_of_all [of n] digits_of_ne [of n] by (cases "digits_of n") auto

lemma cents_split: "10 * (10 * (c div 100) + c mod 100 div 10) + c mod 10 = (c::nat)"
proof -
  define q m d r where "q = c div 100" and "m = c mod 100" and "d = c mod 100 div 10"
    and "r = c mod 10"
  have "c mod 100 mod 10 = c mod 10" by (simp add: mod_mod_cancel)
  then have a: "m = 10 * d + r"
    using div_mult_mod_eq [of "c mod 100" 10] by (simp add: m_def d_def r_def)
  have b: "c = 100 * q + m" by (simp add: q_def m_def)
  have "10 * (10 * q + d) + r = c" using a b by simp
  then show ?thesis by (simp only: q_def d_def r_def)
qed

lemma rstrip_cents_str: "rstrip ''$'' (cents_str c @ ''$'') = cents_str c"
  using digit_char_not_special [of "c mod 10"] by (simp add: rstrip_def cents_str_def)

lemma unsigned_decimal_cents_str: "unsigned_decimal (cents_str c) = Some (of_nat c / 100)"
proof -
  define ip where "ip = digits_of (c div 100)"
  define a where "a = digit_char (c mod 100 div 10)"
  define b where "b = digit_char (c mod 10)"
  have ip: "list_all is_digit ip" "ip \<noteq> []" by (simp_all add: ip_def digits_of_all digits_of_ne)
  have ab: "is_digit a" "is_digit b" by (simp_all add: a_def b_def is_digit_digit_char)
  have s: "cents_str c = ip @ CHR ''.'' # [a, b]" by (simp add: cents_str_def ip_def a_def b_def)
  have tw: "takeWhile is_digit (cents_str c) = ip"
    unfolding s using ip(1) not_digit_point by (simp add: list_all_iff)
  have dw: "dropWhile is_digit (cents_str c) = CHR ''.'' # [a, b]"
    unfolding s using ip(1) not_digit_point by (simp add: list_all_iff)
  have "nat_of_digits (ip @ [a, b]) = 10 * (10 * (c div 100) + c mod 100 div 10) + c mod 10"
    using nat_of_digits_snoc [of "ip @ [a]" b] nat_of_digits_snoc [of ip a]
    by (simp add: ip_def a_def b_def nat_of_digits_digits_of digit_val_digit_char)
  then have n: "nat_of_digits (ip @ [a, b]) = c" by (simp only: cents_split)
  show ?thesis
    by (simp add: unsigned_decimal_def tw dw Let_def ab n)
qed

lemma decimal_cents_str: "decimal (cents_str c) = Some (of_nat c / 100)"
proof -
  obtain a t where at: "digits_of (c div 100) = a # t" "is_digit a"
    using digits_of_hd by blast
  have "a \<noteq> CHR ''-''" "a \<noteq> CHR ''+''" using at(2) by (auto simp: is_digit_def)
  moreover have "cents_str c = a # (t @ ''.'' @ [digit_char (c mod 100 div 10), digit_char (c mod 10)])"
    by (simp add: cents_str_def at)
  ultimately show ?thesis
    using unsigned_decimal_cents_str [of c] by (simp add: decimal_def)
qed

lemma amount_cents_str: "amount (cents_str c @ ''$'') = Some (of_nat c / 100)"
  by (simp add: amount_def rstrip_cents_str decimal_cents_str)

lemma format_2f_nonneg: "0 \<le> x \<Longrightarrow> format_2f x = cents_str (nat (rhe (100 * x)))"
  using rhe_nonneg [of "100 * x"] by (simp add: format_2f_def cents_str_def Let_def)

lemma amount_init: "amount ''500$'' = Some 500" "amount ''79$'' = Some 79" "amount ''900$'' = Some 900"
  by (simp_all add: amount_def rstrip_def decimal_def unsigned_decimal_def is_digit_def
      nat_of_digits_def digit_val_def)

lemma strptime_init:
  "strptime ''22/2/25'' = Inr \<lparr>year = 2025, month = 2, day = 22\<rparr>"
  "strptime ''24/2/25'' = Inr \<lparr>year = 2025, month = 2, day = 24\<rparr>"
  "strptime ''2/2/25'' = Inr \<lparr>year = 2025, month = 2, day = 2\<rparr>"
  by (simp_all add: strptime_def day_field_def month_field_def year_field_def is_digit_def
      digit_val_def days_in_month_def is_leap_def)

lemma strptime_empty: "strptime [] = Inl ValueError"
  by (simp add: strptime_def)

lemma toordinal_eval:
  "toordinal \<lparr>year = 2025, month = 2, day = 2\<rparr> = 739284"
  "toordinal \<lparr>year = 2025, month = 2, day = 22\<rparr> = 739304"
  "toordinal \<lparr>year = 2025, month = 2, day = 24\<rparr> = 739306"
  "toordinal \<lparr>year = 2025, month = 2, day = 25\<rparr> = 739307"
  "toordinal \<lparr>year = 2025, month = 3, day = 1\<rparr> = 739311"
  by (simp_all add: toordinal_def days_before_year_def days_before_month_def days_in_month_def
      is_leap_def upto.simps)

lemma cents_str_7742: "cents_str 7742 = ''77.42''"
  by (simp add: cents_str_def digit_char_eval digits_of.simps [of 77] digits_of.simps [of 7])

section \<open>The methods on a well-formed store\<close>

lemma float_of_amount:
  "amount p = Some v \<Longrightarrow> float (rstrip ''$'' p) = Inr (rd v)"
  by (simp add: amount_def float_def)

lemma penalised_cents_bounds:
  assumes "c \<le> 1000000000"
  shows "\<bar>50 * int (penalised_cents c) - 49 * int c\<bar> \<le> 25" and "penalised_cents c \<le> c"
  using cents_step [OF assms] by (simp_all add: penalised_cents_def)

lemma tie_cases:
  fixes c c' :: nat
  assumes "50 * int c' - 49 * int c = 25 \<or> 50 * int c' - 49 * int c = - 25"
  shows "98 * c mod 100 = 50"
  using assms
proof
  assume a: "50 * int c' - 49 * int c = 25"
  then have "c' \<noteq> 0" by auto
  then obtain j where j: "c' = Suc j" by (cases c') auto
  have "98 * c = 100 * j + 50" using a j by simp
  then show ?thesis by simp
next
  assume a: "50 * int c' - 49 * int c = - 25"
  have "98 * c = 100 * c' + 50" using a by linarith
  then show ?thesis by simp
qed

lemma penalised_cents_off_tie:
  assumes "c \<le> 1000000000" and "98 * c mod 100 \<noteq> 50"
  shows "int (penalised_cents c) = rhe (100 * (98 / 100 * (of_nat c / 100)))"
    and "penalised_cents c = (49 * c + 25) div 50"
proof -
  define c' where "c' = penalised_cents c"
  have b: "\<bar>50 * int c' - 49 * int c\<bar> \<le> 25"
    unfolding c'_def by (rule penalised_cents_bounds [OF assms(1)])
  have ne: "\<not> (50 * int c' - 49 * int c = 25 \<or> 50 * int c' - 49 * int c = - 25)"
    using tie_cases [of c' c] assms(2) by blast
  have lt: "\<bar>50 * int c' - 49 * int c\<bar> < 25" using b ne by linarith
  then have "\<bar>(of_int (50 * int c' - 49 * int c) :: rat)\<bar> < of_int 25"
    by (simp only: of_int_abs [symmetric] of_int_less_iff)
  then have "\<bar>(of_int (int c') :: rat) - 100 * (98 / 100 * (of_nat c / 100))\<bar> < 1 / 2"
    unfolding abs_less_iff by simp
  then have "rhe (100 * (98 / 100 * (of_nat c / 100))) = int c'" by (rule rhe_nearest)
  then show "int (penalised_cents c) = rhe (100 * (98 / 100 * (of_nat c / 100)))"
    by (simp add: c'_def)
  have "50 * c' \<le> 49 * c + 25" "49 * c + 25 < 50 * c' + 50" using lt by linarith+
  then have "c' = (49 * c + 25) div 50" by (simp add: div_nat_eqI mult.commute)
  then show "penalised_cents c = (49 * c + 25) div 50" by (simp add: c'_def)
qed

lemma penalised_cents_near:
  assumes "c \<le> 1000000000"
  shows "\<bar>(of_nat (penalised_cents c) / 100 :: rat) - 98 / 100 * (of_nat c / 100)\<bar> \<le> 1 / 200"
proof -
  have "\<bar>50 * int (penalised_cents c) - 49 * int c\<bar> \<le> 25"
    by (rule penalised_cents_bounds(1) [OF assms])
  then have "\<bar>(of_int (50 * int (penalised_cents c) - 49 * int c) :: rat)\<bar> \<le> of_int 25"
    by (simp only: of_int_abs [symmetric] of_int_le_iff)
  then show ?thesis unfolding abs_le_iff by simp
qed

lemma initiate_return_accept_exact:
  fixes c :: nat
  assumes known: "oid \<in> set [''12345'', ''67890'', ''11223'']"
    and window: "window_closed today s oid = Inr False"
    and price: "order_price s oid = Some p" "amount p = Some (of_nat c / 100)"
  shows "initiate_return today s oid reason =
           (Inr (''Return initiated for order '' @ oid @ '' due to: '' @ reason
                 @ ''. Price after penalty is '' @ cents_str (penalised_cents c) @ ''$'' @ ''.''),
            s\<lparr>order_statuses := (order_statuses s)(oid \<mapsto> ''Return Initiated''),
              order_price := (order_price s)(oid \<mapsto> cents_str (penalised_cents c) @ ''$'')\<rparr>)"
proof -
  define v :: rat where "v = of_nat c / 100"
  define r where "r = rd (rd v - rd (rd v * rd (2 / 100)))"
  have fl: "float (rstrip ''$'' p) = Inr (rd v)"
    using float_of_amount [OF price(2)] by (simp add: v_def)
  have r0: "0 \<le> r" unfolding r_def by (rule penalty_err(2)) (simp add: v_def)
  have fm: "format_2f r = cents_str (penalised_cents c)"
    using format_2f_nonneg [OF r0] by (simp add: penalised_cents_def r_def v_def)
  show ?thesis
    using known window price(1) fl fm [unfolded r_def]
    by (simp add: initiate_return_def Let_def)
qed

lemma initiate_return_accept:
  fixes c :: nat
  assumes known: "oid \<in> set [''12345'', ''67890'', ''11223'']"
    and window: "window_closed today s oid = Inr False"
    and price: "order_price s oid = Some p" "amount p = Some (of_nat c / 100)"
    and bound: "c \<le> 1000000000"
  shows "\<exists>c' :: nat.
           initiate_return today s oid reason =
             (Inr (''Return initiated for order '' @ oid @ '' due to: '' @ reason
                   @ ''. Price after penalty is '' @ cents_str c' @ ''$'' @ ''.''),
              s\<lparr>order_statuses := (order_statuses s)(oid \<mapsto> ''Return Initiated''),
                order_price := (order_price s)(oid \<mapsto> cents_str c' @ ''$'')\<rparr>)
           \<and> \<bar>50 * int c' - 49 * int c\<bar> \<le> 25 \<and> c' \<le> c"
  using initiate_return_accept_exact [OF known window price, of reason]
    penalised_cents_bounds [OF bound] by blast

lemma initiate_return_reject:
  assumes "oid \<in> set [''12345'', ''67890'', ''11223'']"
    and "window_closed today s oid = Inr True"
  shows "initiate_return today s oid reason =
           (Inr (''Return cannot be initiated for order '' @ oid
                 @ '' as it has been more than 10 days since shipping.''), s)"
  using assms by (simp add: initiate_return_def)

lemma initiate_return_unknown:
  "oid \<notin> set [''12345'', ''67890'', ''11223''] \<Longrightarrow>
   initiate_return today s oid reason = (Inr ''Order ID not found. Cannot initiate return.'', s)"
  by (simp add: initiate_return_def)

lemma window_closed_total:
  assumes "order_shipped s = order_shipped init"
  shows "\<exists>b. window_closed today s oid = Inr b"
  using assms by (auto simp: window_closed_def init_def strptime_init)

lemma wf_price_init:
  "wf_price init ''12345''" "wf_price init ''67890''" "wf_price init ''11223''"
proof -
  have a: "amount ''500$'' = Some (of_nat 50000 / 100)" "amount ''79$'' = Some (of_nat 7900 / 100)"
    "amount ''900$'' = Some (of_nat 90000 / 100)" by (simp_all add: amount_init)
  show "wf_price init ''12345''" unfolding wf_price_def
    apply (rule exI [of _ "''500$''"], rule exI [of _ "''500$''"])
    apply (rule exI [of _ 50000], rule exI [of _ 50000])
    using a by (simp add: init_def)
  show "wf_price init ''67890''" unfolding wf_price_def
    apply (rule exI [of _ "''79$''"], rule exI [of _ "''79$''"])
    apply (rule exI [of _ 7900], rule exI [of _ 7900])
    using a by (simp add: init_def)
  show "wf_price init ''11223''" unfolding wf_price_def
    apply (rule exI [of _ "''900$''"], rule exI [of _ "''900$''"])
    apply (rule exI [of _ 90000], rule exI [of _ 90000])
    using a by (simp add: init_def)
qed

lemma wf_init: "wf init"
  using wf_price_init by (simp add: wf_def) (simp add: init_def)

lemma wf_known_price:
  assumes "wf s" "oid \<in> set [''12345'', ''67890'', ''11223'']"
  shows "\<exists>p q. \<exists>c d :: nat. order_price s oid = Some p \<and> original_prices s oid = Some q
        \<and> amount p = Some (of_nat c / 100) \<and> amount q = Some (of_nat d / 100)
        \<and> c \<le> d \<and> d \<le> 90000"
  using assms unfolding wf_def wf_price_def by blast

lemma wf_known_status:
  assumes "wf s" "oid \<in> set [''12345'', ''67890'', ''11223'']"
  shows "\<exists>st. order_statuses s oid = Some st \<and> st \<noteq> []"
  using assms unfolding wf_def by blast

lemma wf_unknown:
  assumes "wf s" "oid \<notin> set [''12345'', ''67890'', ''11223'']"
  shows "order_statuses s oid = None" "order_price s oid = None"
  using assms unfolding wf_def by blast+

lemma wf_status_known:
  assumes "wf s" "order_statuses s oid = Some st"
  shows "oid \<in> set [''12345'', ''67890'', ''11223'']"
  using assms wf_unknown(1) [of s oid] by (cases "oid \<in> set [''12345'', ''67890'', ''11223'']") auto

lemma initiate_return_open:
  assumes wf: "wf s" and known: "oid \<in> set [''12345'', ''67890'', ''11223'']"
    and window: "window_closed today s oid = Inr False"
  shows "\<exists>p. \<exists>c :: nat.
           order_price s oid = Some p \<and> amount p = Some (of_nat c / 100) \<and> c \<le> 90000
         \<and> initiate_return today s oid reason =
             (Inr (''Return initiated for order '' @ oid @ '' due to: '' @ reason
                   @ ''. Price after penalty is '' @ cents_str (penalised_cents c) @ ''$''
                   @ ''.''),
              s\<lparr>order_statuses := (order_statuses s)(oid \<mapsto> ''Return Initiated''),
                order_price := (order_price s)(oid \<mapsto> cents_str (penalised_cents c) @ ''$'')\<rparr>)"
proof -
  obtain p and c d :: nat where pc: "order_price s oid = Some p"
      "amount p = Some (of_nat c / 100)" "c \<le> d" "d \<le> 90000"
    using wf_known_price [OF wf known] by blast
  have "c \<le> 90000" using pc(3,4) by simp
  then show ?thesis
    using initiate_return_accept_exact [OF known window pc(1,2), of reason] pc(1,2) by blast
qed

lemma cancel_return_wf:
  assumes "wf s"
  shows "snd (cancel_return s oid reason) = s"
proof (cases "order_statuses s oid")
  case None
  then show ?thesis by (simp add: cancel_return_def)
next
  case (Some st)
  then obtain p where p: "order_price s oid = Some p"
    using wf_known_price [OF assms wf_status_known [OF assms Some]] by blast
  have "(order_statuses s)(oid \<mapsto> st) = order_statuses s" "(order_price s)(oid \<mapsto> p) = order_price s"
    using Some p by (simp_all add: map_upd_triv)
  then show ?thesis using Some p by (cases "st = ''Return Initiated''") (auto simp: cancel_return_def Let_def)
qed

lemma initiate_return_outcome:
  assumes wf: "wf s"
  shows "(oid \<notin> set [''12345'', ''67890'', ''11223''] \<and>
          initiate_return today s oid reason =
            (Inr ''Order ID not found. Cannot initiate return.'', s))
       \<or> (oid \<in> set [''12345'', ''67890'', ''11223''] \<and> window_closed today s oid = Inr True \<and>
          initiate_return today s oid reason =
            (Inr (''Return cannot be initiated for order '' @ oid
                  @ '' as it has been more than 10 days since shipping.''), s))
       \<or> (oid \<in> set [''12345'', ''67890'', ''11223''] \<and> window_closed today s oid = Inr False \<and>
          (\<exists>p. \<exists>c c' :: nat.
             order_price s oid = Some p \<and> amount p = Some (of_nat c / 100) \<and> c' \<le> c \<and>
             \<bar>50 * int c' - 49 * int c\<bar> \<le> 25 \<and>
             initiate_return today s oid reason =
             (Inr (''Return initiated for order '' @ oid @ '' due to: '' @ reason
                   @ ''. Price after penalty is '' @ cents_str c' @ ''$'' @ ''.''),
              s\<lparr>order_statuses := (order_statuses s)(oid \<mapsto> ''Return Initiated''),
                order_price := (order_price s)(oid \<mapsto> cents_str c' @ ''$'')\<rparr>)))"
proof (cases "oid \<in> set [''12345'', ''67890'', ''11223'']")
  case False
  then show ?thesis by (simp add: initiate_return_unknown)
next
  case True
  have sh: "order_shipped s = order_shipped init" using wf by (simp add: wf_def)
  obtain b where b: "window_closed today s oid = Inr b" using window_closed_total [OF sh] by blast
  show ?thesis
  proof (cases b)
    case True
    then show ?thesis using initiate_return_reject [OF \<open>oid \<in> _\<close>] b \<open>oid \<in> _\<close> by simp
  next
    case False
    obtain p and c d :: nat where pc: "order_price s oid = Some p" "amount p = Some (of_nat c / 100)"
      "c \<le> d" "d \<le> 90000"
      using wf_known_price [OF wf True] by blast
    have "c \<le> 1000000000" using pc by simp
    from initiate_return_accept [OF True _ pc(1,2) this, of today reason] b False
    obtain c' :: nat where c': "initiate_return today s oid reason =
             (Inr (''Return initiated for order '' @ oid @ '' due to: '' @ reason
                   @ ''. Price after penalty is '' @ cents_str c' @ ''$'' @ ''.''),
              s\<lparr>order_statuses := (order_statuses s)(oid \<mapsto> ''Return Initiated''),
                order_price := (order_price s)(oid \<mapsto> cents_str c' @ ''$'')\<rparr>)"
       "\<bar>50 * int c' - 49 * int c\<bar> \<le> 25" "c' \<le> c" by auto
    have w: "window_closed today s oid = Inr False" using b False by simp
    have "\<exists>p. \<exists>c c' :: nat.
             order_price s oid = Some p \<and> amount p = Some (of_nat c / 100) \<and> c' \<le> c \<and>
             \<bar>50 * int c' - 49 * int c\<bar> \<le> 25 \<and>
             initiate_return today s oid reason =
             (Inr (''Return initiated for order '' @ oid @ '' due to: '' @ reason
                   @ ''. Price after penalty is '' @ cents_str c' @ ''$'' @ ''.''),
              s\<lparr>order_statuses := (order_statuses s)(oid \<mapsto> ''Return Initiated''),
                order_price := (order_price s)(oid \<mapsto> cents_str c' @ ''$'')\<rparr>)"
      apply (rule exI [of _ p], rule exI [of _ c], rule exI [of _ c'])
      using pc(1,2) c' by simp
    then show ?thesis using True w by simp
  qed
qed

lemma wf_update:
  fixes c c' :: nat
  assumes wf: "wf s" and known: "oid \<in> set [''12345'', ''67890'', ''11223'']"
    and p: "order_price s oid = Some p" "amount p = Some (of_nat c / 100)" and le: "c' \<le> c"
  shows "wf (s\<lparr>order_statuses := (order_statuses s)(oid \<mapsto> ''Return Initiated''),
                order_price := (order_price s)(oid \<mapsto> cents_str c' @ ''$'')\<rparr>)"
    (is "wf ?s'")
proof -
  have 1: "order_shipped ?s' = order_shipped init" "original_prices ?s' = original_prices init"
    using wf by (simp_all add: wf_def)
  have 2: "order_statuses ?s' x = None \<and> order_price ?s' x = None"
    if "x \<notin> set [''12345'', ''67890'', ''11223'']" for x
    using wf_unknown [OF wf that] known that by auto
  have 3: "(\<exists>st. order_statuses ?s' x = Some st \<and> st \<noteq> []) \<and> wf_price ?s' x"
    if x: "x \<in> set [''12345'', ''67890'', ''11223'']" for x
  proof (cases "x = oid")
    case False
    have "wf_price s x" using wf x unfolding wf_def by blast
    then have "wf_price ?s' x" using False by (simp add: wf_price_def)
    then show ?thesis using wf_known_status [OF wf x] False by simp
  next
    case True
    obtain p0 q and c0 d :: nat where pc: "order_price s oid = Some p0" "original_prices s oid = Some q"
      "amount p0 = Some (of_nat c0 / 100)" "amount q = Some (of_nat d / 100)" "c0 \<le> d" "d \<le> 90000"
      using wf_known_price [OF wf known] by blast
    have "c0 = c" using pc(1,3) p by simp
    then have "c' \<le> d" using le pc(5) by simp
    then have "wf_price ?s' oid" unfolding wf_price_def
      using pc(2,4,6) amount_cents_str [of c'] by auto
    then show ?thesis using True by simp
  qed
  show ?thesis unfolding wf_def using 1 2 3 by blast
qed

lemma initiate_return_wf:
  assumes wf: "wf s"
  shows "wf (snd (initiate_return today s oid reason))"
  using initiate_return_outcome [OF wf, of oid today reason]
proof (elim disjE conjE exE)
  assume "initiate_return today s oid reason =
            (Inr ''Order ID not found. Cannot initiate return.'', s)"
  then show ?thesis using wf by simp
next
  assume "initiate_return today s oid reason =
            (Inr (''Return cannot be initiated for order '' @ oid
                  @ '' as it has been more than 10 days since shipping.''), s)"
  then show ?thesis using wf by simp
next
  fix p and c c' :: nat
  assume "oid \<in> set [''12345'', ''67890'', ''11223'']" "order_price s oid = Some p"
    "amount p = Some (of_nat c / 100)" "c' \<le> c"
    and e: "initiate_return today s oid reason =
             (Inr (''Return initiated for order '' @ oid @ '' due to: '' @ reason
                   @ ''. Price after penalty is '' @ cents_str c' @ ''$'' @ ''.''),
              s\<lparr>order_statuses := (order_statuses s)(oid \<mapsto> ''Return Initiated''),
                order_price := (order_price s)(oid \<mapsto> cents_str c' @ ''$'')\<rparr>)"
  then show ?thesis using wf_update [OF wf, of oid p c c'] by simp
qed

lemma exec_wf: "wf s \<Longrightarrow> wf (snd (exec today s c))"
  by (cases c) (simp_all add: get_total_price_def get_order_status_def initiate_return_wf cancel_return_wf)

lemma reachable_wf: "reachable s \<Longrightarrow> wf s"
  by (induction rule: reachable.induct) (simp_all add: wf_init exec_wf)

lemma initiate_return_narrates:
  assumes wf: "wf s"
  shows "\<exists>msg. fst (initiate_return today s oid reason) = Inr msg \<and> msg \<noteq> []"
  using initiate_return_outcome [OF wf, of oid today reason]
  by (elim disjE conjE exE) simp_all

lemma cancel_return_narrates:
  "\<exists>msg. fst (cancel_return s oid reason) = Inr msg \<and> msg \<noteq> []"
  by (cases "order_statuses s oid") (simp_all add: cancel_return_def Let_def)

lemma amount_nonempty: "amount p = Some v \<Longrightarrow> p \<noteq> []"
  by (auto simp: amount_def rstrip_def decimal_def)

lemma get_total_price_narrates:
  assumes wf: "wf s"
  shows "\<exists>msg. fst (get_total_price s oid) = Inr msg \<and> msg \<noteq> []"
proof (cases "oid \<in> set [''12345'', ''67890'', ''11223'']")
  case True
  then obtain p v where "order_price s oid = Some p" "amount p = Some v"
    using wf_known_price [OF wf True] by blast
  then show ?thesis using amount_nonempty by (simp add: get_total_price_def)
next
  case False
  then show ?thesis using wf_unknown(2) [OF wf False] by (simp add: get_total_price_def)
qed

lemma get_order_status_narrates:
  assumes wf: "wf s"
  shows "\<exists>msg. fst (get_order_status s oid) = Inr msg \<and> msg \<noteq> []"
proof (cases "oid \<in> set [''12345'', ''67890'', ''11223'']")
  case True
  then show ?thesis using wf_known_status [OF wf True] by (auto simp: get_order_status_def)
next
  case False
  then show ?thesis using wf_unknown(1) [OF wf False] by (simp add: get_order_status_def)
qed

lemma window_closed_eval:
  "window_closed \<lparr>year = 2025, month = 2, day = 25\<rparr> init ''67890'' = Inr False"
  "window_closed \<lparr>year = 2025, month = 3, day = 1\<rparr> init ''11223'' = Inr True"
  by (simp_all add: window_closed_def init_def strptime_init days_since_shipped_def toordinal_eval)

lemma window_closed_False_iff:
  "window_closed today s oid = Inr False \<longleftrightarrow>
     order_shipped s oid = None \<or> order_shipped s oid = Some [] \<or>
     (\<exists>ds sd. order_shipped s oid = Some ds \<and> strptime ds = Inr sd
        \<and> days_since_shipped today sd \<le> 10)"
  by (auto simp: window_closed_def strptime_empty split: option.splits sum.splits)

lemma initiate_first_67890:
  "initiate_return \<lparr>year = 2025, month = 2, day = 25\<rparr> init ''67890'' reason =
     (Inr (''Return initiated for order 67890 due to: '' @ reason
           @ ''. Price after penalty is 77.42$.''), after_returns 7742)"
proof -
  have k: "''67890'' \<in> set [''12345'', ''67890'', ''11223'']" by simp
  have p: "order_price init ''67890'' = Some ''79$''" by (simp add: init_def)
  have a: "amount ''79$'' = Some (of_nat 7900 / 100)" by (simp add: amount_init)
  obtain c' :: nat where c': "initiate_return \<lparr>year = 2025, month = 2, day = 25\<rparr> init ''67890'' reason =
             (Inr (''Return initiated for order '' @ ''67890'' @ '' due to: '' @ reason
                   @ ''. Price after penalty is '' @ cents_str c' @ ''$'' @ ''.''),
              init\<lparr>order_statuses := (order_statuses init)(''67890'' \<mapsto> ''Return Initiated''),
                order_price := (order_price init)(''67890'' \<mapsto> cents_str c' @ ''$'')\<rparr>)"
       "\<bar>50 * int c' - 49 * int 7900\<bar> \<le> 25"
    using initiate_return_accept [OF k window_closed_eval(1) p a, of reason] by auto
  have "c' = 7742" using c'(2) by simp
  then show ?thesis using c'(1) by (simp add: after_returns_def cents_str_7742)
qed

lemma reachable_after_first: "reachable (after_returns 7742)"
  using reachable_step [OF reachable_init, of "\<lparr>year = 2025, month = 2, day = 25\<rparr>"
      "Initiate_return ''67890'' ''wrong item''"]
  by (simp add: initiate_first_67890)

lemma initiate_return_statuses:
  "order_statuses (snd (initiate_return today s x r)) = order_statuses s \<or>
   order_statuses (snd (initiate_return today s x r)) =
     (order_statuses s)(x \<mapsto> ''Return Initiated'')"
proof (cases "x \<in> set [''12345'', ''67890'', ''11223'']")
  case False
  then show ?thesis by (simp add: initiate_return_unknown)
next
  case known: True
  show ?thesis
  proof (cases "window_closed today s x")
    case (Inl e)
    then show ?thesis using known by (simp add: initiate_return_def)
  next
    case (Inr b)
    show ?thesis
    proof (cases b)
      case True
      then show ?thesis using known Inr by (simp add: initiate_return_def)
    next
      case False
      show ?thesis
      proof (cases "order_price s x")
        case None
        then show ?thesis using known Inr False by (simp add: initiate_return_def)
      next
        case (Some p)
        then show ?thesis using known Inr False
          by (cases "float (rstrip ''$'' p)") (simp_all add: initiate_return_def Let_def)
      qed
    qed
  qed
qed

lemma cancel_return_statuses:
  "order_statuses (snd (cancel_return s x r)) = order_statuses s"
proof (cases "order_statuses s x")
  case None
  then show ?thesis by (simp add: cancel_return_def)
next
  case (Some st)
  then have "(order_statuses s)(x \<mapsto> st) = order_statuses s" by (simp add: map_upd_triv)
  then show ?thesis using Some
    by (cases "st = ''Return Initiated''") (simp_all add: cancel_return_def Let_def)
qed

lemma exec_keeps_return_initiated:
  assumes "order_statuses s oid = Some ''Return Initiated''"
  shows "order_statuses (snd (exec today s c)) oid = Some ''Return Initiated''"
proof (cases c)
  case (Get_total_price x)
  then show ?thesis using assms by (simp add: get_total_price_def)
next
  case (Get_order_status x)
  then show ?thesis using assms by (simp add: get_order_status_def)
next
  case (Initiate_return x r)
  then show ?thesis using assms initiate_return_statuses [of today s x r] by auto
next
  case (Cancel_return x r)
  then show ?thesis using assms by (simp add: cancel_return_statuses)
qed

lemma run_keeps_return_initiated:
  "order_statuses s oid = Some ''Return Initiated'' \<Longrightarrow>
   order_statuses (run s cs) oid = Some ''Return Initiated''"
proof (induction cs arbitrary: s)
  case Nil
  then show ?case by simp
next
  case (Cons a cs)
  obtain today c where a: "a = (today, c)" by (cases a)
  show ?case unfolding a run.simps
    by (rule Cons.IH) (rule exec_keeps_return_initiated [OF Cons.prems])
qed

lemma cancel_return_success_status:
  assumes "fst (cancel_return s oid reason) =
             Inr (''Return cancellation initiated for order '' @ oid @ '' due to: '' @ reason
                  @ ''. Price reset to '' @ p @ ''.'')"
  shows "order_statuses s oid = Some ''Return Initiated''"
proof (cases "order_statuses s oid")
  case None
  then show ?thesis using assms by (simp add: cancel_return_def)
next
  case (Some st)
  then show ?thesis using assms
    by (cases "st = ''Return Initiated''") (simp_all add: cancel_return_def Let_def)
qed

subsection \<open>Repeated returns of order 67890\<close>

text \<open>
  Each further return on 25 February 2025 takes \<open>after_returns c\<close> to
  \<open>after_returns (penalised_cents c)\<close>. The binary64 computation is evaluated step by step
  at the halfway prices 63.25$, 7.75$ and 0.25$; between them the returns follow
  \<open>returns_chain\<close>. From 0.25$ on the price falls with every call, and 0.24$ is a fixed
  point.
\<close>

lemma penalised_cents_775: "penalised_cents 775 = 759"
proof -
  have k: "rd (2 / 100) = (5764607523034235 / 288230376151711744)"
    by (rule rd_eval [where e = "- 6" and m = 5764607523034235]) (simp_all add: pow2_def)
  have 1: "rd (of_nat 775 / 100) = (31 / 4)"
    by (rule rd_eval [where e = "2" and m = 8725724278030336]) (simp_all add: pow2_def)
  have 2: "rd ((31 / 4) * (5764607523034235 / 288230376151711744)) = (5584463537939415 / 36028797018963968)"
    by (rule rd_eval [where e = "- 3" and m = 5584463537939415]) (simp_all add: pow2_def)
  have 3: "rd ((31 / 4) - (5584463537939415 / 36028797018963968)) = (8551209792469729 / 1125899906842624)"
    by (rule rd_eval [where e = "2" and m = 8551209792469729]) (simp_all add: pow2_def)
  have 4: "rhe (100 * (8551209792469729 / 1125899906842624)) = 759"
    by (rule rhe_nearest) simp
  show ?thesis unfolding penalised_cents_def 1 k 2 3 4 by simp
qed

lemma penalised_cents_6325: "penalised_cents 6325 = 6198"
proof -
  have k: "rd (2 / 100) = (5764607523034235 / 288230376151711744)"
    by (rule rd_eval [where e = "- 6" and m = 5764607523034235]) (simp_all add: pow2_def)
  have 1: "rd (of_nat 6325 / 100) = (253 / 4)"
    by (rule rd_eval [where e = "5" and m = 8901646138474496]) (simp_all add: pow2_def)
  have 2: "rd ((253 / 4) * (5764607523034235 / 288230376151711744)) = (2848526764311839 / 2251799813685248)"
    by (rule rd_eval [where e = "0" and m = 5697053528623678]) (simp_all add: pow2_def)
  have 3: "rd ((253 / 4) - (2848526764311839 / 2251799813685248)) = (4361806607852503 / 70368744177664)"
    by (rule rd_eval [where e = "5" and m = 8723613215705006]) (simp_all add: pow2_def)
  have 4: "rhe (100 * (4361806607852503 / 70368744177664)) = 6198"
    by (rule rhe_nearest) simp
  show ?thesis unfolding penalised_cents_def 1 k 2 3 4 by simp
qed

lemma penalised_cents_25: "penalised_cents 25 = 24"
proof -
  have k: "rd (2 / 100) = (5764607523034235 / 288230376151711744)"
    by (rule rd_eval [where e = "- 6" and m = 5764607523034235]) (simp_all add: pow2_def)
  have 1: "rd (of_nat 25 / 100) = (1 / 4)"
    by (rule rd_eval [where e = "- 2" and m = 4503599627370496]) (simp_all add: pow2_def)
  have 2: "rd ((1 / 4) * (5764607523034235 / 288230376151711744)) = (5764607523034235 / 1152921504606846976)"
    by (rule rd_eval [where e = "- 8" and m = 5764607523034235]) (simp_all add: pow2_def)
  have 3: "rd ((1 / 4) - (5764607523034235 / 1152921504606846976)) = (2206763817411543 / 9007199254740992)"
    by (rule rd_eval [where e = "- 3" and m = 8827055269646172]) (simp_all add: pow2_def)
  have 4: "rhe (100 * (2206763817411543 / 9007199254740992)) = 24"
    by (rule rhe_nearest) simp
  show ?thesis unfolding penalised_cents_def 1 k 2 3 4 by simp
qed

lemma penalised_cents_24: "penalised_cents 24 = 24"
proof -
  have "\<bar>50 * int (penalised_cents 24) - 49 * int 24\<bar> \<le> 25"
    by (rule penalised_cents_bounds) simp
  then show ?thesis by simp
qed

lemma cents_str_24: "cents_str 24 = ''0.24''"
  by (simp add: cents_str_def digit_char_eval digits_of.simps [of 0])

lemma cents_str_7587: "cents_str 7587 = ''75.87''"
  by (simp add: cents_str_def digit_char_eval digits_of.simps [of 75] digits_of.simps [of 7])

lemma after_returns_fields:
  "order_price (after_returns c) ''67890'' = Some (cents_str c @ ''$'')"
  "order_statuses (after_returns c) ''67890'' = Some ''Return Initiated''"
  "order_shipped (after_returns c) = order_shipped init"
  by (simp_all add: after_returns_def)

lemma window_after_returns:
  "window_closed \<lparr>year = 2025, month = 2, day = 25\<rparr> (after_returns c) ''67890'' = Inr False"
  using window_closed_eval(1) by (simp add: window_closed_def after_returns_fields(3))

lemma initiate_after_returns:
  "initiate_return \<lparr>year = 2025, month = 2, day = 25\<rparr> (after_returns c) ''67890'' reason =
     (Inr (''Return initiated for order 67890 due to: '' @ reason
           @ ''. Price after penalty is '' @ cents_str (penalised_cents c) @ ''$'' @ ''.''),
      after_returns (penalised_cents c))"
proof -
  have k: "''67890'' \<in> set [''12345'', ''67890'', ''11223'']" by simp
  show ?thesis
    using initiate_return_accept_exact [OF k window_after_returns after_returns_fields(1)
        amount_cents_str, of c reason]
    by (simp add: after_returns_def)
qed

lemma reachable_after_returns_step:
  "reachable (after_returns c) \<Longrightarrow> reachable (after_returns (penalised_cents c))"
  using reachable_step [of "after_returns c" "\<lparr>year = 2025, month = 2, day = 25\<rparr>"
      "Initiate_return ''67890'' ''wrong item''"]
  by (simp add: initiate_after_returns)

lemma reachable_down_to_25:
  "reachable (after_returns c) \<Longrightarrow> 25 \<le> c \<Longrightarrow> c \<le> 1000000000 \<Longrightarrow>
   reachable (after_returns 25)"
proof (induction c rule: less_induct)
  case (less c)
  show ?case
  proof (cases "c = 25")
    case True
    then show ?thesis using less.prems(1) by simp
  next
    case False
    define c' where "c' = penalised_cents c"
    have b: "\<bar>50 * int c' - 49 * int c\<bar> \<le> 25"
      unfolding c'_def by (rule penalised_cents_bounds) (rule less.prems(3))
    have lt: "c' < c" using b False less.prems(2) by linarith
    have ge: "25 \<le> c'" using b False less.prems(2) by linarith
    have "reachable (after_returns c')"
      unfolding c'_def by (rule reachable_after_returns_step) (rule less.prems(1))
    then show ?thesis using less.IH [OF lt _ ge] lt less.prems(3) by simp
  qed
qed

lemma reachable_after_returns_24: "reachable (after_returns 24)"
proof -
  have "reachable (after_returns 25)"
    by (rule reachable_down_to_25 [OF reachable_after_first]) simp_all
  then show ?thesis using reachable_after_returns_step [of 25] by (simp add: penalised_cents_25)
qed

lemma returns_chain_numeral:
  "returns_chain (numeral k) c =
     (if 98 * c mod 100 = 50 then c
      else returns_chain (pred_numeral k) ((49 * c + 25) div 50))"
  by (simp add: numeral_eq_Suc [of k])

lemma returns_chain_eval:
  "returns_chain 10 7742 = 6325" "returns_chain 102 6198 = 791" "returns_chain 1 791 = 775"
  by (simp_all add: returns_chain_numeral)

lemma reachable_returns_chain:
  "reachable (after_returns c) \<Longrightarrow> c \<le> 1000000000 \<Longrightarrow>
   reachable (after_returns (returns_chain n c))"
proof (induction n arbitrary: c)
  case 0
  then show ?case by simp
next
  case (Suc n)
  show ?case
  proof (cases "98 * c mod 100 = 50")
    case True
    then show ?thesis using Suc.prems(1) by simp
  next
    case False
    have e: "penalised_cents c = (49 * c + 25) div 50"
      using penalised_cents_off_tie(2) [OF Suc.prems(2) False] .
    have "penalised_cents c \<le> c" by (rule penalised_cents_bounds(2) [OF Suc.prems(2)])
    then have le: "(49 * c + 25) div 50 \<le> 1000000000" using e Suc.prems(2) by simp
    have "reachable (after_returns ((49 * c + 25) div 50))"
      using reachable_after_returns_step [OF Suc.prems(1)] e by simp
    then have "reachable (after_returns (returns_chain n ((49 * c + 25) div 50)))"
      using le by (rule Suc.IH)
    then show ?thesis using False by simp
  qed
qed

lemma reachable_after_returns_791: "reachable (after_returns 791)"
proof -
  have "reachable (after_returns 6325)"
    using reachable_returns_chain [OF reachable_after_first, of 10]
    by (simp add: returns_chain_eval)
  then have "reachable (after_returns 6198)"
    using reachable_after_returns_step [of 6325] by (simp add: penalised_cents_6325)
  then show ?thesis
    using reachable_returns_chain [of 6198 102] by (simp add: returns_chain_eval)
qed

lemma reachable_after_returns_775: "reachable (after_returns 775)"
  using reachable_returns_chain [OF reachable_after_returns_791, of 1]
  by (simp add: returns_chain_eval)

lemma cents_str_more:
  "cents_str 775 = ''7.75''" "cents_str 759 = ''7.59''" "cents_str 760 = ''7.60''"
  "cents_str 791 = ''7.91''"
  by (simp_all add: cents_str_def digit_char_eval digits_of.simps [of 7])

lemma penalised_cents_lower:
  assumes "25 \<le> c" and "c \<le> 1000000000"
  shows "penalised_cents c < c"
proof (cases "c = 25")
  case True
  then show ?thesis by (simp add: penalised_cents_25)
next
  case False
  have "\<bar>50 * int (penalised_cents c) - 49 * int c\<bar> \<le> 25"
    by (rule penalised_cents_bounds(1) [OF assms(2)])
  then show ?thesis using False assms(1) by linarith
qed

lemma penalised_cents_fixed:
  assumes "c < 25"
  shows "penalised_cents c = c"
proof -
  have b: "c \<le> 1000000000" using assms by simp
  have "\<bar>50 * int (penalised_cents c) - 49 * int c\<bar> \<le> 25" "penalised_cents c \<le> c"
    using penalised_cents_bounds [OF b] by simp_all
  then show ?thesis using assms by linarith
qed

lemma window_closed_cong:
  "order_shipped s' = order_shipped s \<Longrightarrow> window_closed today s' oid = window_closed today s oid"
  by (simp add: window_closed_def)

section \<open>The properties of the specification\<close>

subsection \<open>Reads\<close>

text \<open>
  Claim C10. \<^verbatim>\<open>get_order_status\<close> and \<^verbatim>\<open>get_total_price\<close> are pure reads: for every order
  id, known or not, and in every store, the store after the call is the store before it, in
  all four dictionaries.
\<close>

theorem reads_leave_store_unchanged:
  "snd (get_order_status s order_id) = s \<and> snd (get_total_price s order_id) = s"
  by (simp add: get_order_status_def get_total_price_def)

subsection \<open>Rejections\<close>

text \<open>
  Claim C5. For an order of the store whose status is not \<^verbatim>\<open>Return Initiated\<close>,
  \<^verbatim>\<open>cancel_return\<close> returns the explanatory rejection and the store is unchanged.
\<close>

theorem cancel_return_rejected:
  assumes "order_statuses s order_id = Some status" and "status \<noteq> ''Return Initiated''"
  shows "cancel_return s order_id reason =
           (Inr (''Order '' @ order_id
                 @ '' is not in 'Return Initiated' status. Cannot cancel return.''), s)"
  using assms by (simp add: cancel_return_def)

theorem cancel_return_rejected_witness:
  "order_statuses init ''11223'' = Some ''Delivered'' \<and> ''Delivered'' \<noteq> ''Return Initiated''
   \<and> cancel_return init ''11223'' ''changed my mind'' =
       (Inr ''Order 11223 is not in 'Return Initiated' status. Cannot cancel return.'', init)"
proof -
  have 1: "order_statuses init ''11223'' = Some ''Delivered''" by (simp add: init_def)
  have 2: "''Delivered'' \<noteq> ''Return Initiated''" by simp
  show ?thesis using cancel_return_rejected [OF 1 2, of "''changed my mind''"] 1 2 by simp
qed

text \<open>
  Claim C4. For an order of the catalogue whose ship date is present and more than 10 days
  before today, \<^verbatim>\<open>initiate_return\<close> returns the explanatory rejection and changes nothing
  in the store: neither the status, nor the price, nor anything else. This holds in every
  store, reachable or not.
\<close>

theorem initiate_return_after_window:
  assumes "order_id \<in> set [''12345'', ''67890'', ''11223'']"
    and "order_shipped s order_id = Some shipping_date_str"
    and "strptime shipping_date_str = Inr shipping_date"
    and "10 < days_since_shipped today shipping_date"
  shows "initiate_return today s order_id reason =
           (Inr (''Return cannot be initiated for order '' @ order_id
                 @ '' as it has been more than 10 days since shipping.''), s)"
proof -
  have "shipping_date_str \<noteq> []" using assms(3) strptime_empty by auto
  then have "window_closed today s order_id = Inr True"
    using assms(2-4) by (simp add: window_closed_def)
  then show ?thesis by (rule initiate_return_reject [OF assms(1)])
qed

theorem initiate_return_after_window_witness:
  "''11223'' \<in> set [''12345'', ''67890'', ''11223'']
   \<and> order_shipped init ''11223'' = Some ''2/2/25''
   \<and> strptime ''2/2/25'' = Inr \<lparr>year = 2025, month = 2, day = 2\<rparr>
   \<and> 10 < days_since_shipped \<lparr>year = 2025, month = 3, day = 1\<rparr>
            \<lparr>year = 2025, month = 2, day = 2\<rparr>
   \<and> initiate_return \<lparr>year = 2025, month = 3, day = 1\<rparr> init ''11223'' ''damaged'' =
       (Inr ''Return cannot be initiated for order 11223 as it has been more than 10 days since shipping.'',
        init)"
proof -
  have 1: "''11223'' \<in> set [''12345'', ''67890'', ''11223'']" by simp
  have 2: "order_shipped init ''11223'' = Some ''2/2/25''" by (simp add: init_def)
  have 3: "strptime ''2/2/25'' = Inr \<lparr>year = 2025, month = 2, day = 2\<rparr>"
    by (rule strptime_init)
  have 4: "10 < days_since_shipped \<lparr>year = 2025, month = 3, day = 1\<rparr>
                  \<lparr>year = 2025, month = 2, day = 2\<rparr>"
    by (simp add: days_since_shipped_def toordinal_eval)
  show ?thesis
    using initiate_return_after_window [OF 1 2 3 4, of "''damaged''"] 1 2 3 4 by simp
qed

text \<open>
  Claim C3. In every reachable store and for every order id that is not in it, each of the
  four methods returns its not-found sentinel and leaves the store as it was. The sentinel
  of \<^verbatim>\<open>get_total_price\<close> is the string \<^verbatim>\<open>total sum price\<close>.
\<close>

theorem unknown_order_not_found:
  assumes "reachable s" and "order_statuses s order_id = None"
  shows "get_order_status s order_id = (Inr ''Order ID not found.'', s)
       \<and> get_total_price s order_id = (Inr ''total sum price'', s)
       \<and> initiate_return today s order_id reason =
           (Inr ''Order ID not found. Cannot initiate return.'', s)
       \<and> cancel_return s order_id reason = (Inr ''Order ID not found. Cannot cancel return.'', s)"
proof -
  have wf: "wf s" using assms(1) by (rule reachable_wf)
  have nk: "order_id \<notin> set [''12345'', ''67890'', ''11223'']"
    using wf_known_status [OF wf, of order_id] assms(2) by auto
  have "order_price s order_id = None" using wf_unknown(2) [OF wf nk] .
  then show ?thesis using assms(2) nk
    by (simp add: get_order_status_def get_total_price_def cancel_return_def
        initiate_return_unknown)
qed

theorem unknown_order_not_found_witness:
  "reachable init \<and> order_statuses init ''99999'' = None
   \<and> get_order_status init ''99999'' = (Inr ''Order ID not found.'', init)
   \<and> get_total_price init ''99999'' = (Inr ''total sum price'', init)
   \<and> initiate_return \<lparr>year = 2025, month = 2, day = 25\<rparr> init ''99999'' ''damaged'' =
       (Inr ''Order ID not found. Cannot initiate return.'', init)
   \<and> cancel_return init ''99999'' ''changed my mind'' =
       (Inr ''Order ID not found. Cannot cancel return.'', init)"
proof -
  have 1: "order_statuses init ''99999'' = None" by (simp add: init_def)
  show ?thesis
    using unknown_order_not_found [OF reachable_init 1,
        of "\<lparr>year = 2025, month = 2, day = 25\<rparr>" "''damaged''"]
      unknown_order_not_found [OF reachable_init 1,
        of "\<lparr>year = 2025, month = 2, day = 25\<rparr>" "''changed my mind''"]
      reachable_init 1 by simp
qed

subsection \<open>Every call returns a narration\<close>

text \<open>
  Claim C8. In every reachable store each of the four methods, on every order id, known or
  not, every reason and every current date, returns a non-empty string and raises no
  exception. The methods are total functions of the model, so each call terminates.
\<close>

theorem every_call_returns_narration:
  assumes "reachable s"
  shows "\<exists>msg. fst (exec today s c) = Inr msg \<and> msg \<noteq> []"
proof -
  have wf: "wf s" using assms by (rule reachable_wf)
  show ?thesis
    by (cases c)
      (simp_all add: get_total_price_narrates [OF wf] get_order_status_narrates [OF wf]
        initiate_return_narrates [OF wf] cancel_return_narrates)
qed

theorem every_call_returns_narration_witness:
  "reachable init
   \<and> (\<exists>msg. fst (exec \<lparr>year = 2025, month = 2, day = 25\<rparr> init
                  (Initiate_return ''67890'' ''wrong item'')) = Inr msg \<and> msg \<noteq> [])"
  using every_call_returns_narration [OF reachable_init,
      of "\<lparr>year = 2025, month = 2, day = 25\<rparr>" "Initiate_return ''67890'' ''wrong item''"]
    reachable_init by simp


subsection \<open>Prices never exceed the original price\<close>

text \<open>
  Claim C6. In every store reachable from the seeded one by calls of the four methods, the
  price of each order is at most its original price recorded at construction. Prices are
  strings; they are compared as the numbers they denote.
\<close>

theorem price_at_most_original:
  assumes "reachable s" and "order_id \<in> set [''12345'', ''67890'', ''11223'']"
  shows "\<exists>p q a b. order_price s order_id = Some p \<and> original_prices s order_id = Some q
           \<and> amount p = Some a \<and> amount q = Some b \<and> a \<le> b"
proof -
  have wf: "wf s" using assms(1) by (rule reachable_wf)
  obtain p q and c d :: nat where pc: "order_price s order_id = Some p"
      "original_prices s order_id = Some q" "amount p = Some (of_nat c / 100)"
      "amount q = Some (of_nat d / 100)" "c \<le> d"
    using wf_known_price [OF wf assms(2)] by blast
  have "(of_nat c / 100 :: rat) \<le> of_nat d / 100" using pc(5) by simp
  then show ?thesis using pc(1-4) by blast
qed

theorem price_at_most_original_witness:
  "reachable (after_returns 7742) \<and> ''67890'' \<in> set [''12345'', ''67890'', ''11223'']
   \<and> (\<exists>p q a b. order_price (after_returns 7742) ''67890'' = Some p
         \<and> original_prices (after_returns 7742) ''67890'' = Some q
         \<and> amount p = Some a \<and> amount q = Some b \<and> a \<le> b)"
proof -
  have k: "''67890'' \<in> set [''12345'', ''67890'', ''11223'']" by simp
  show ?thesis using price_at_most_original [OF reachable_after_first k] reachable_after_first k
    by simp
qed

subsection \<open>A successful return\<close>

text \<open>
  Claim C2, as amended. In a reachable store, when the order is in the catalogue and the
  return window is open (\<open>window_closed\<close> is \<open>False\<close>: no ship date, or at most 10 days since
  shipping, see \<open>window_closed_False_iff\<close>), \<^verbatim>\<open>initiate_return\<close> sets the status to
  \<^verbatim>\<open>Return Initiated\<close> and writes the price \<open>penalised_cents c\<close>, the binary64 value of
  \<open>p - p * 0.02\<close> printed with 2 decimals, where \<open>c\<close> hundredths is the price \<open>p\<close> before the
  call. That price is within half a hundredth of 0.98 times \<open>p\<close>, and it is 0.98 times
  \<open>p\<close> rounded to 2 decimals whenever the product is not exactly halfway between two
  hundredths. The narration holds the order id, the reason and the new price. The witness
  is the spec's example: order 67890 at 79$, shipped the day before, costs 77.42$ after the
  call.
\<close>

theorem initiate_return_applies_penalty:
  assumes "reachable s" and "order_id \<in> set [''12345'', ''67890'', ''11223'']"
    and "window_closed today s order_id = Inr False"
  shows "\<exists>p. \<exists>c :: nat.
           order_price s order_id = Some p \<and> amount p = Some (of_nat c / 100)
         \<and> initiate_return today s order_id reason =
             (Inr (''Return initiated for order '' @ order_id @ '' due to: '' @ reason
                   @ ''. Price after penalty is '' @ cents_str (penalised_cents c) @ ''$''
                   @ ''.''),
              s\<lparr>order_statuses := (order_statuses s)(order_id \<mapsto> ''Return Initiated''),
                order_price :=
                  (order_price s)(order_id \<mapsto> cents_str (penalised_cents c) @ ''$'')\<rparr>)
         \<and> amount (cents_str (penalised_cents c) @ ''$'') =
             Some (of_nat (penalised_cents c) / 100)
         \<and> \<bar>(of_nat (penalised_cents c) / 100 :: rat) - 98 / 100 * (of_nat c / 100)\<bar>
             \<le> 1 / 200
         \<and> (98 * c mod 100 \<noteq> 50 \<longrightarrow>
              int (penalised_cents c) = rhe (100 * (98 / 100 * (of_nat c / 100))))"
proof -
  have wf: "wf s" using assms(1) by (rule reachable_wf)
  obtain p and c :: nat where h: "order_price s order_id = Some p"
      "amount p = Some (of_nat c / 100)" "c \<le> 90000"
      "initiate_return today s order_id reason =
             (Inr (''Return initiated for order '' @ order_id @ '' due to: '' @ reason
                   @ ''. Price after penalty is '' @ cents_str (penalised_cents c) @ ''$''
                   @ ''.''),
              s\<lparr>order_statuses := (order_statuses s)(order_id \<mapsto> ''Return Initiated''),
                order_price :=
                  (order_price s)(order_id \<mapsto> cents_str (penalised_cents c) @ ''$'')\<rparr>)"
    using initiate_return_open [OF wf assms(2,3), of reason] by blast
  have b: "c \<le> 1000000000" using h(3) by simp
  have n: "\<bar>(of_nat (penalised_cents c) / 100 :: rat) - 98 / 100 * (of_nat c / 100)\<bar> \<le> 1 / 200"
    by (rule penalised_cents_near [OF b])
  have t: "98 * c mod 100 \<noteq> 50 \<longrightarrow>
              int (penalised_cents c) = rhe (100 * (98 / 100 * (of_nat c / 100)))"
    using penalised_cents_off_tie(1) [OF b] by blast
  show ?thesis
    apply (rule exI [of _ p], rule exI [of _ c])
    using h(1,2,4) amount_cents_str [of "penalised_cents c"] n t by simp
qed

theorem initiate_return_applies_penalty_witness:
  "reachable init \<and> ''67890'' \<in> set [''12345'', ''67890'', ''11223'']
   \<and> window_closed \<lparr>year = 2025, month = 2, day = 25\<rparr> init ''67890'' = Inr False
   \<and> order_price init ''67890'' = Some ''79$''
   \<and> 98 * (7900 :: nat) mod 100 \<noteq> 50
   \<and> initiate_return \<lparr>year = 2025, month = 2, day = 25\<rparr> init ''67890'' ''wrong item'' =
       (Inr ''Return initiated for order 67890 due to: wrong item. Price after penalty is 77.42$.'',
        init\<lparr>order_statuses := (order_statuses init)(''67890'' \<mapsto> ''Return Initiated''),
             order_price := (order_price init)(''67890'' \<mapsto> ''77.42$'')\<rparr>)"
proof -
  have k: "''67890'' \<in> set [''12345'', ''67890'', ''11223'']" by simp
  have p0: "order_price init ''67890'' = Some ''79$''" by (simp add: init_def)
  obtain p and c :: nat where h: "order_price init ''67890'' = Some p"
      "amount p = Some (of_nat c / 100)"
      "98 * c mod 100 \<noteq> 50 \<longrightarrow>
         int (penalised_cents c) = rhe (100 * (98 / 100 * (of_nat c / 100)))"
      "initiate_return \<lparr>year = 2025, month = 2, day = 25\<rparr> init ''67890'' ''wrong item'' =
             (Inr (''Return initiated for order '' @ ''67890'' @ '' due to: '' @ ''wrong item''
                   @ ''. Price after penalty is '' @ cents_str (penalised_cents c) @ ''$''
                   @ ''.''),
              init\<lparr>order_statuses := (order_statuses init)(''67890'' \<mapsto> ''Return Initiated''),
                order_price :=
                  (order_price init)(''67890'' \<mapsto> cents_str (penalised_cents c) @ ''$'')\<rparr>)"
    using initiate_return_applies_penalty [OF reachable_init k window_closed_eval(1),
        of "''wrong item''"] by blast
  have "p = ''79$''" using h(1) p0 by simp
  then have "(of_nat c / 100 :: rat) = 79" using h(2) by (simp add: amount_init)
  then have "(of_nat c :: rat) = of_nat 7900" by simp
  then have c: "c = 7900" by (simp only: of_nat_eq_iff)
  have "rhe (100 * (98 / 100 * (of_nat (7900 :: nat) / 100))) = 7742"
    by (rule rhe_nearest) simp
  then have "int (penalised_cents 7900) = 7742" using h(3) unfolding c by simp
  then have "penalised_cents 7900 = 7742" by simp
  then show ?thesis using h(4) reachable_init k window_closed_eval(1) p0 unfolding c
    by (simp add: cents_str_7742)
qed

text \<open>
  Claim C2 as stated says the new price is 0.98 times the old one rounded to 2 decimals.
  It fails in the reachable store where earlier returns have brought order 67890 to 7.75$:
  0.98 times 7.75 is 7.595, which rounds to 7.60 with ties to even and with ties upwards
  alike, and the method writes 7.59$.
\<close>

theorem initiate_return_halfway_counterexample:
  "reachable (after_returns 775)
   \<and> ''67890'' \<in> set [''12345'', ''67890'', ''11223'']
   \<and> window_closed \<lparr>year = 2025, month = 2, day = 25\<rparr> (after_returns 775) ''67890'' = Inr False
   \<and> order_price (after_returns 775) ''67890'' = Some ''7.75$''
   \<and> amount ''7.75$'' = Some (775 / 100)
   \<and> initiate_return \<lparr>year = 2025, month = 2, day = 25\<rparr> (after_returns 775)
         ''67890'' ''wrong item'' =
       (Inr ''Return initiated for order 67890 due to: wrong item. Price after penalty is 7.59$.'',
        after_returns 759)
   \<and> order_price (after_returns 759) ''67890'' = Some ''7.59$''
   \<and> (98 / 100 * (775 / 100) :: rat) = 7595 / 1000
   \<and> rhe (100 * (98 / 100 * (775 / 100))) = 760
   \<and> \<lfloor>100 * (98 / 100 * (775 / 100)) + 1 / 2 :: rat\<rfloor> = 760
   \<and> cents_str 760 = ''7.60''"
proof -
  have i: "initiate_return \<lparr>year = 2025, month = 2, day = 25\<rparr> (after_returns 775)
             ''67890'' ''wrong item'' =
           (Inr ''Return initiated for order 67890 due to: wrong item. Price after penalty is 7.59$.'',
            after_returns 759)"
    using initiate_after_returns [of 775 "''wrong item''"]
    by (simp add: penalised_cents_775 cents_str_more)
  have p: "order_price (after_returns 775) ''67890'' = Some ''7.75$''"
    "order_price (after_returns 759) ''67890'' = Some ''7.59$''"
    by (simp_all add: after_returns_fields(1) cents_str_more)
  have a: "amount ''7.75$'' = Some (775 / 100)"
    using amount_cents_str [of 775] by (simp add: cents_str_more)
  have "\<lfloor>1519 / 2 :: rat\<rfloor> = 759" by (rule floor_unique) simp_all
  then have r: "rhe (100 * (98 / 100 * (775 / 100))) = 760"
    by (simp add: rhe_def Let_def)
  have f: "\<lfloor>100 * (98 / 100 * (775 / 100)) + 1 / 2 :: rat\<rfloor> = 760" by simp
  show ?thesis
    unfolding i
    using reachable_after_returns_775 window_after_returns [of 775] p a r f
    by (simp add: cents_str_more)
qed

subsection \<open>Cancelling a return\<close>

text \<open>
  Claim C1, evaluated on the code. The claim asks that \<^verbatim>\<open>cancel_return\<close> right after a
  successful \<^verbatim>\<open>initiate_return\<close> restores the price and the status the order had before the
  return. On the seeded store, for order 67890 on 25 February 2025, the return succeeds and
  the cancellation narrates success, but the order keeps the status \<^verbatim>\<open>Return Initiated\<close>
  and the penalised price 77.42$, where the claim requires \<^verbatim>\<open>Processing\<close> and 79$.
\<close>

theorem cancel_return_keeps_penalised_price:
  "order_statuses init ''67890'' = Some ''Processing''
   \<and> order_price init ''67890'' = Some ''79$''
   \<and> fst (initiate_return \<lparr>year = 2025, month = 2, day = 25\<rparr> init ''67890'' ''wrong item'') =
       Inr ''Return initiated for order 67890 due to: wrong item. Price after penalty is 77.42$.''
   \<and> fst (cancel_return
            (snd (initiate_return \<lparr>year = 2025, month = 2, day = 25\<rparr> init ''67890'' ''wrong item''))
            ''67890'' ''changed my mind'') =
       Inr ''Return cancellation initiated for order 67890 due to: changed my mind. Price reset to 77.42$.''
   \<and> order_statuses
        (snd (cancel_return
               (snd (initiate_return \<lparr>year = 2025, month = 2, day = 25\<rparr> init ''67890'' ''wrong item''))
               ''67890'' ''changed my mind'')) ''67890'' = Some ''Return Initiated''
   \<and> order_price
        (snd (cancel_return
               (snd (initiate_return \<lparr>year = 2025, month = 2, day = 25\<rparr> init ''67890'' ''wrong item''))
               ''67890'' ''changed my mind'')) ''67890'' = Some ''77.42$''"
proof -
  have i: "initiate_return \<lparr>year = 2025, month = 2, day = 25\<rparr> init ''67890'' ''wrong item'' =
      (Inr ''Return initiated for order 67890 due to: wrong item. Price after penalty is 77.42$.'',
       after_returns 7742)"
    using initiate_first_67890 [of "''wrong item''"] by simp
  have c: "cancel_return (after_returns 7742) ''67890'' ''changed my mind'' =
      (Inr ''Return cancellation initiated for order 67890 due to: changed my mind. Price reset to 77.42$.'',
       after_returns 7742)"
    by (simp add: cancel_return_def after_returns_def cents_str_7742)
  have s: "order_statuses (after_returns 7742) ''67890'' = Some ''Return Initiated''"
    "order_price (after_returns 7742) ''67890'' = Some ''77.42$''"
    by (simp_all add: after_returns_def cents_str_7742)
  have 0: "order_statuses init ''67890'' = Some ''Processing''"
    "order_price init ''67890'' = Some ''79$''"
    by (simp_all add: init_def)
  show ?thesis unfolding i fst_conv snd_conv c using 0 s by simp
qed

text \<open>
  Claim C9. In a reachable store, after a \<^verbatim>\<open>cancel_return\<close> that returned the success
  narration the status of the order is still \<^verbatim>\<open>Return Initiated\<close> and its price is the price
  before the call; after any further sequence \<open>cs\<close> of calls the status is still
  \<^verbatim>\<open>Return Initiated\<close>; and a second \<^verbatim>\<open>cancel_return\<close> on the order succeeds again.
\<close>

theorem cancel_return_success_changes_nothing:
  assumes "reachable s"
    and "fst (cancel_return s order_id reason) =
           Inr (''Return cancellation initiated for order '' @ order_id @ '' due to: '' @ reason
                @ ''. Price reset to '' @ p @ ''.'')"
  shows "order_statuses (snd (cancel_return s order_id reason)) order_id = Some ''Return Initiated''
       \<and> order_price (snd (cancel_return s order_id reason)) order_id = order_price s order_id
       \<and> order_statuses (run (snd (cancel_return s order_id reason)) cs) order_id =
           Some ''Return Initiated''
       \<and> (\<exists>p'. fst (cancel_return (snd (cancel_return s order_id reason)) order_id reason') =
                  Inr (''Return cancellation initiated for order '' @ order_id @ '' due to: ''
                       @ reason' @ ''. Price reset to '' @ p' @ ''.''))"
proof -
  have wf: "wf s" using assms(1) by (rule reachable_wf)
  have st: "order_statuses s order_id = Some ''Return Initiated''"
    using assms(2) by (rule cancel_return_success_status)
  have same: "snd (cancel_return s order_id reason) = s" using wf by (rule cancel_return_wf)
  have "fst (cancel_return s order_id reason') =
          Inr (''Return cancellation initiated for order '' @ order_id @ '' due to: ''
               @ reason' @ ''. Price reset to ''
               @ (case order_price s order_id of Some v \<Rightarrow> v | None \<Rightarrow> ''order_price'') @ ''.'')"
    using st by (simp add: cancel_return_def Let_def)
  then show ?thesis unfolding same using st run_keeps_return_initiated [OF st] by blast
qed

theorem cancel_return_success_changes_nothing_witness:
  "reachable (after_returns 7742)
   \<and> fst (cancel_return (after_returns 7742) ''67890'' ''changed my mind'') =
       Inr ''Return cancellation initiated for order 67890 due to: changed my mind. Price reset to 77.42$.''
   \<and> order_statuses (snd (cancel_return (after_returns 7742) ''67890'' ''changed my mind''))
        ''67890'' = Some ''Return Initiated''
   \<and> order_price (snd (cancel_return (after_returns 7742) ''67890'' ''changed my mind''))
        ''67890'' = Some ''77.42$''
   \<and> order_statuses
        (run (snd (cancel_return (after_returns 7742) ''67890'' ''changed my mind''))
           [(\<lparr>year = 2025, month = 2, day = 26\<rparr>, Initiate_return ''67890'' ''damaged''),
            (\<lparr>year = 2025, month = 2, day = 27\<rparr>, Cancel_return ''67890'' ''changed my mind'')])
        ''67890'' = Some ''Return Initiated''"
proof -
  have 2: "fst (cancel_return (after_returns 7742) ''67890'' ''changed my mind'') =
       Inr (''Return cancellation initiated for order '' @ ''67890'' @ '' due to: ''
            @ ''changed my mind'' @ ''. Price reset to '' @ ''77.42$'' @ ''.'')"
    by (simp add: cancel_return_def after_returns_def cents_str_7742)
  have 3: "order_price (after_returns 7742) ''67890'' = Some ''77.42$''"
    by (simp add: after_returns_def cents_str_7742)
  show ?thesis
    using cancel_return_success_changes_nothing [OF reachable_after_first 2,
        of "[(\<lparr>year = 2025, month = 2, day = 26\<rparr>, Initiate_return ''67890'' ''damaged''),
            (\<lparr>year = 2025, month = 2, day = 27\<rparr>, Cancel_return ''67890'' ''changed my mind'')]"]
      reachable_after_first 2 3
    by simp
qed

subsection \<open>Two returns in succession\<close>

text \<open>
  Claim C7, as amended. In a reachable store, for an order of the catalogue and two calls of
  \<^verbatim>\<open>initiate_return\<close> in succession, both within the return window, the second call applies
  the penalty to the price \<open>c1\<close> the first call left: it writes \<open>penalised_cents c1\<close>, the
  binary64 value of \<open>q - q * 0.02\<close> printed with 2 decimals for the price \<open>q\<close> after the first
  call. That is within half a hundredth of 0.98 times \<open>q\<close>, and it is 0.98 times \<open>q\<close>
  rounded to 2 decimals whenever the product is not exactly halfway between two hundredths.
  The price after two calls is lower than the price after one call whenever the latter is
  at least 0.25$, and equal to it when the latter is below 0.25$.
\<close>

theorem repeated_return_compounds:
  assumes "reachable s" and "order_id \<in> set [''12345'', ''67890'', ''11223'']"
    and "window_closed today1 s order_id = Inr False"
    and "window_closed today2 s order_id = Inr False"
  shows "\<exists>c1 :: nat.
           order_price (snd (initiate_return today1 s order_id reason1)) order_id =
             Some (cents_str c1 @ ''$'')
         \<and> fst (initiate_return today2 (snd (initiate_return today1 s order_id reason1))
                 order_id reason2) =
             Inr (''Return initiated for order '' @ order_id @ '' due to: '' @ reason2
                  @ ''. Price after penalty is '' @ cents_str (penalised_cents c1) @ ''$''
                  @ ''.'')
         \<and> order_price
              (snd (initiate_return today2 (snd (initiate_return today1 s order_id reason1))
                     order_id reason2)) order_id =
             Some (cents_str (penalised_cents c1) @ ''$'')
         \<and> \<bar>(of_nat (penalised_cents c1) / 100 :: rat) - 98 / 100 * (of_nat c1 / 100)\<bar>
             \<le> 1 / 200
         \<and> (98 * c1 mod 100 \<noteq> 50 \<longrightarrow>
              int (penalised_cents c1) = rhe (100 * (98 / 100 * (of_nat c1 / 100))))
         \<and> (25 \<le> c1 \<longrightarrow> penalised_cents c1 < c1)
         \<and> (c1 < 25 \<longrightarrow> penalised_cents c1 = c1)"
proof -
  have wf: "wf s" using assms(1) by (rule reachable_wf)
  define s1 where "s1 = snd (initiate_return today1 s order_id reason1)"
  obtain c0 :: nat where h1: "c0 \<le> 90000"
      "initiate_return today1 s order_id reason1 =
             (Inr (''Return initiated for order '' @ order_id @ '' due to: '' @ reason1
                   @ ''. Price after penalty is '' @ cents_str (penalised_cents c0) @ ''$''
                   @ ''.''),
              s\<lparr>order_statuses := (order_statuses s)(order_id \<mapsto> ''Return Initiated''),
                order_price :=
                  (order_price s)(order_id \<mapsto> cents_str (penalised_cents c0) @ ''$'')\<rparr>)"
    using initiate_return_open [OF wf assms(2,3), of reason1] by blast
  define c1 where "c1 = penalised_cents c0"
  have p1: "order_price s1 order_id = Some (cents_str c1 @ ''$'')"
    and sh: "order_shipped s1 = order_shipped s"
    unfolding s1_def h1(2) c1_def by simp_all
  have wf1: "wf s1" unfolding s1_def using wf by (rule initiate_return_wf)
  have w2: "window_closed today2 s1 order_id = Inr False"
    using window_closed_cong [OF sh] assms(4) by simp
  obtain p and c :: nat where h2: "order_price s1 order_id = Some p"
      "amount p = Some (of_nat c / 100)" "c \<le> 90000"
      "initiate_return today2 s1 order_id reason2 =
             (Inr (''Return initiated for order '' @ order_id @ '' due to: '' @ reason2
                   @ ''. Price after penalty is '' @ cents_str (penalised_cents c) @ ''$''
                   @ ''.''),
              s1\<lparr>order_statuses := (order_statuses s1)(order_id \<mapsto> ''Return Initiated''),
                order_price :=
                  (order_price s1)(order_id \<mapsto> cents_str (penalised_cents c) @ ''$'')\<rparr>)"
    using initiate_return_open [OF wf1 assms(2) w2, of reason2] by blast
  have "p = cents_str c1 @ ''$''" using h2(1) p1 by simp
  then have "(of_nat c / 100 :: rat) = of_nat c1 / 100"
    using h2(2) amount_cents_str [of c1] by simp
  then have c: "c = c1" by simp
  have b: "c1 \<le> 1000000000" using h2(3) c by simp
  have f: "fst (initiate_return today2 s1 order_id reason2) =
             Inr (''Return initiated for order '' @ order_id @ '' due to: '' @ reason2
                  @ ''. Price after penalty is '' @ cents_str (penalised_cents c1) @ ''$''
                  @ ''.'')"
    and g: "order_price (snd (initiate_return today2 s1 order_id reason2)) order_id =
             Some (cents_str (penalised_cents c1) @ ''$'')"
    unfolding h2(4) c by simp_all
  have n: "\<bar>(of_nat (penalised_cents c1) / 100 :: rat) - 98 / 100 * (of_nat c1 / 100)\<bar>
             \<le> 1 / 200"
    by (rule penalised_cents_near [OF b])
  have t: "98 * c1 mod 100 \<noteq> 50 \<longrightarrow>
              int (penalised_cents c1) = rhe (100 * (98 / 100 * (of_nat c1 / 100)))"
    using penalised_cents_off_tie(1) [OF b] by blast
  have d: "25 \<le> c1 \<longrightarrow> penalised_cents c1 < c1" using penalised_cents_lower [OF _ b] by blast
  have e: "c1 < 25 \<longrightarrow> penalised_cents c1 = c1" using penalised_cents_fixed by blast
  show ?thesis
    apply (rule exI [of _ c1])
    using p1 f g n t d e unfolding s1_def by simp
qed

theorem repeated_return_compounds_witness:
  "reachable init \<and> ''67890'' \<in> set [''12345'', ''67890'', ''11223'']
   \<and> window_closed \<lparr>year = 2025, month = 2, day = 25\<rparr> init ''67890'' = Inr False
   \<and> 98 * (7742 :: nat) mod 100 \<noteq> 50 \<and> (25 :: nat) \<le> 7742
   \<and> order_price
        (snd (initiate_return \<lparr>year = 2025, month = 2, day = 25\<rparr> init ''67890'' ''wrong item''))
        ''67890'' = Some ''77.42$''
   \<and> order_price
        (snd (initiate_return \<lparr>year = 2025, month = 2, day = 25\<rparr>
               (snd (initiate_return \<lparr>year = 2025, month = 2, day = 25\<rparr> init
                      ''67890'' ''wrong item''))
               ''67890'' ''wrong item'')) ''67890'' = Some ''75.87$''
   \<and> ''75.87$'' \<noteq> ''77.42$''"
proof -
  have k: "''67890'' \<in> set [''12345'', ''67890'', ''11223'']" by simp
  define s1 where
    "s1 = snd (initiate_return \<lparr>year = 2025, month = 2, day = 25\<rparr> init ''67890'' ''wrong item'')"
  define s2 where
    "s2 = snd (initiate_return \<lparr>year = 2025, month = 2, day = 25\<rparr> s1 ''67890'' ''wrong item'')"
  obtain c1 :: nat where h: "order_price s1 ''67890'' = Some (cents_str c1 @ ''$'')"
      "order_price s2 ''67890'' = Some (cents_str (penalised_cents c1) @ ''$'')"
      "98 * c1 mod 100 \<noteq> 50 \<longrightarrow>
         int (penalised_cents c1) = rhe (100 * (98 / 100 * (of_nat c1 / 100)))"
      "25 \<le> c1 \<longrightarrow> penalised_cents c1 < c1"
    using repeated_return_compounds [OF reachable_init k window_closed_eval(1)
        window_closed_eval(1), of "''wrong item''" "''wrong item''"]
    unfolding s1_def s2_def by blast
  have "s1 = after_returns 7742" unfolding s1_def by (simp add: initiate_first_67890)
  then have "cents_str c1 @ ''$'' = cents_str 7742 @ ''$''"
    using h(1) by (simp add: after_returns_fields(1))
  then have "Some (of_nat c1 / 100 :: rat) = Some (of_nat 7742 / 100)"
    using amount_cents_str [of c1] amount_cents_str [of 7742] by simp
  then have "(of_nat c1 :: rat) = of_nat 7742" by simp
  then have c1: "c1 = 7742" by (simp only: of_nat_eq_iff)
  have "rhe (100 * (98 / 100 * (of_nat (7742 :: nat) / 100))) = 7587"
    by (rule rhe_nearest) simp
  then have "int (penalised_cents 7742) = 7587" using h(3) unfolding c1 by simp
  then have c2: "penalised_cents 7742 = 7587" by simp
  have 1: "order_price s1 ''67890'' = Some ''77.42$''" using h(1) c1 by (simp add: cents_str_7742)
  have 2: "order_price s2 ''67890'' = Some ''75.87$''"
    using h(2) unfolding c1 c2 by (simp add: cents_str_7587)
  show ?thesis using reachable_init k window_closed_eval(1) 1 2 unfolding s1_def s2_def by simp
qed

text \<open>
  Claim C7 as stated says that for every order within the window the price after two calls
  is the rounding of 0.98 times the price after one call and differs from it. Both parts
  fail in reachable stores. Where earlier returns have brought order 67890 to 0.24$, the
  price after one call and after two calls is 0.24$. Where they have brought it to 7.91$,
  the first call leaves 7.75$ and the second 7.59$, while 0.98 times 7.75 is 7.595, which
  rounds to 7.60.
\<close>

theorem repeated_return_counterexample:
  "reachable (after_returns 24)
   \<and> window_closed \<lparr>year = 2025, month = 2, day = 25\<rparr> (after_returns 24) ''67890'' = Inr False
   \<and> order_price
        (snd (initiate_return \<lparr>year = 2025, month = 2, day = 25\<rparr> (after_returns 24)
               ''67890'' ''wrong item'')) ''67890'' = Some ''0.24$''
   \<and> fst (initiate_return \<lparr>year = 2025, month = 2, day = 25\<rparr>
           (snd (initiate_return \<lparr>year = 2025, month = 2, day = 25\<rparr> (after_returns 24)
                  ''67890'' ''wrong item''))
           ''67890'' ''wrong item'') =
       Inr ''Return initiated for order 67890 due to: wrong item. Price after penalty is 0.24$.''
   \<and> order_price
        (snd (initiate_return \<lparr>year = 2025, month = 2, day = 25\<rparr>
               (snd (initiate_return \<lparr>year = 2025, month = 2, day = 25\<rparr> (after_returns 24)
                      ''67890'' ''wrong item''))
               ''67890'' ''wrong item'')) ''67890'' = Some ''0.24$''
   \<and> reachable (after_returns 791)
   \<and> window_closed \<lparr>year = 2025, month = 2, day = 25\<rparr> (after_returns 791) ''67890'' = Inr False
   \<and> order_price
        (snd (initiate_return \<lparr>year = 2025, month = 2, day = 25\<rparr> (after_returns 791)
               ''67890'' ''wrong item'')) ''67890'' = Some ''7.75$''
   \<and> fst (initiate_return \<lparr>year = 2025, month = 2, day = 25\<rparr>
           (snd (initiate_return \<lparr>year = 2025, month = 2, day = 25\<rparr> (after_returns 791)
                  ''67890'' ''wrong item''))
           ''67890'' ''wrong item'') =
       Inr ''Return initiated for order 67890 due to: wrong item. Price after penalty is 7.59$.''
   \<and> order_price
        (snd (initiate_return \<lparr>year = 2025, month = 2, day = 25\<rparr>
               (snd (initiate_return \<lparr>year = 2025, month = 2, day = 25\<rparr> (after_returns 791)
                      ''67890'' ''wrong item''))
               ''67890'' ''wrong item'')) ''67890'' = Some ''7.59$''
   \<and> amount ''7.75$'' = Some (775 / 100)
   \<and> rhe (100 * (98 / 100 * (775 / 100))) = 760
   \<and> \<lfloor>100 * (98 / 100 * (775 / 100)) + 1 / 2 :: rat\<rfloor> = 760
   \<and> cents_str 760 = ''7.60''"
proof -
  have i24: "initiate_return \<lparr>year = 2025, month = 2, day = 25\<rparr> (after_returns 24)
             ''67890'' ''wrong item'' =
           (Inr ''Return initiated for order 67890 due to: wrong item. Price after penalty is 0.24$.'',
            after_returns 24)"
    using initiate_after_returns [of 24 "''wrong item''"]
    by (simp add: penalised_cents_24 cents_str_24)
  have e791: "penalised_cents 791 = 775"
    using penalised_cents_off_tie(2) [of 791] by simp
  have i791: "initiate_return \<lparr>year = 2025, month = 2, day = 25\<rparr> (after_returns 791)
             ''67890'' ''wrong item'' =
           (Inr ''Return initiated for order 67890 due to: wrong item. Price after penalty is 7.75$.'',
            after_returns 775)"
    using initiate_after_returns [of 791 "''wrong item''"]
    by (simp add: e791 cents_str_more)
  have i775: "initiate_return \<lparr>year = 2025, month = 2, day = 25\<rparr> (after_returns 775)
             ''67890'' ''wrong item'' =
           (Inr ''Return initiated for order 67890 due to: wrong item. Price after penalty is 7.59$.'',
            after_returns 759)"
    using initiate_after_returns [of 775 "''wrong item''"]
    by (simp add: penalised_cents_775 cents_str_more)
  have p: "order_price (after_returns 24) ''67890'' = Some ''0.24$''"
    "order_price (after_returns 775) ''67890'' = Some ''7.75$''"
    "order_price (after_returns 759) ''67890'' = Some ''7.59$''"
    by (simp_all add: after_returns_fields(1) cents_str_24 cents_str_more)
  have a: "amount ''7.75$'' = Some (775 / 100)"
    using amount_cents_str [of 775] by (simp add: cents_str_more)
  have "\<lfloor>1519 / 2 :: rat\<rfloor> = 759" by (rule floor_unique) simp_all
  then have r: "rhe (100 * (98 / 100 * (775 / 100))) = 760"
    by (simp add: rhe_def Let_def)
  have f: "\<lfloor>100 * (98 / 100 * (775 / 100)) + 1 / 2 :: rat\<rfloor> = 760" by simp
  show ?thesis
    unfolding i24 i791 fst_conv snd_conv i775
    using reachable_after_returns_24 reachable_after_returns_791 window_after_returns [of 24]
      window_after_returns [of 791] p a r f
    by (simp add: cents_str_more)
qed

end
